theory Spec2Isabelle
  imports Main "HOL-Library.Word"
begin

unbundle bit_operations_syntax

section \<open>The RCWT (Raw Captions With Time) demuxer, libavformat/rcwtdec.c\<close>

text \<open>
  A shallow embedding of \<^verbatim>\<open>rcwt_read_header\<close> and \<^verbatim>\<open>rcwt_probe\<close>.
  The C function \<^verbatim>\<open>rcwt_read_header\<close> is one body with three commented parts
  (validate the header, setup AVStream, demux); the embedding keeps the three parts as
  \<open>rcwt_validate_header\<close>, the stream setup inside \<open>rcwt_read_header\<close>, and the
  \<^verbatim>\<open>while\<close> loop \<open>rcwt_demux\<close> with its body \<open>rcwt_read_cluster\<close>.
\<close>

subsection \<open>C types and constants\<close>

type_synonym uint8_t = "8 word"
type_synonym uint16_t = "16 word"
type_synonym c_uint = "32 word"
type_synonym c_int = "32 word"
type_synonym int64_t = "64 word"

text \<open>\<^verbatim>\<open>int\<close> and \<^verbatim>\<open>unsigned int\<close> are both 32-bit words; \<open>sint\<close> reads a
  \<^verbatim>\<open>c_int\<close>, \<open>uint\<close> a \<^verbatim>\<open>c_uint\<close>. \<^verbatim>\<open>int64_t\<close> is a 64-bit word read by \<open>sint\<close>.\<close>

definition RCWT_CLUSTER_MAX_BLOCKS :: int where
  "RCWT_CLUSTER_MAX_BLOCKS = 65535"

definition RCWT_BLOCK_SIZE :: c_int where
  "RCWT_BLOCK_SIZE = 3"

definition RCWT_HEADER_SIZE :: nat where
  "RCWT_HEADER_SIZE = 11"

text \<open>The two error codes \<^verbatim>\<open>rcwt_read_header\<close> returns; a return of 0 is \<open>Inr ()\<close>.\<close>

datatype averror = AVERROR_INVALIDDATA | AVERROR_ENOMEM

type_synonym ret = "averror + unit"

text \<open>Modelled from the spec: the macro \<^verbatim>\<open>AVERROR_EOF\<close> of libavutil/error.h, which is
  not among the sources. It is the negative value \<^verbatim>\<open>avio_read\<close> returns when
  end-of-stream leaves nothing to read (the spec's \<open>bytes_read\<close> of a truncated cluster);
  the demuxer only compares it with a positive size and prints it.\<close>

definition AVERROR_EOF :: int where
  "AVERROR_EOF = - 541478725"

subsection \<open>The byte input: AVIOContext\<close>

text \<open>Modelled from the spec: \<^verbatim>\<open>AVIOContext\<close> (libavformat/avio.h), which is not
  among the sources. The input is a finite sequence of bytes read strictly forward, by
  this demuxer alone (spec 4.2, 5): \<open>io_buf\<close> holds the bytes not yet consumed,
  \<open>io_pos\<close> is the cursor (the count of bytes consumed), and \<open>eof_reached\<close> is raised
  by the first read that asks for a byte beyond the end. Read errors other than
  end-of-stream are not modelled.\<close>

record avio_context =
  io_buf :: "uint8_t list"
  io_pos :: nat
  eof_reached :: bool

text \<open>Modelled from the spec: \<^verbatim>\<open>avio_r8\<close> of libavformat/aviobuf.c, which is not among
  the sources. It reads one byte; at end-of-stream it delivers 0 and raises
  \<open>eof_reached\<close>.\<close>

definition avio_r8 :: "avio_context \<Rightarrow> uint8_t \<times> avio_context" where
  "avio_r8 s =
     (case io_buf s of
        [] \<Rightarrow> (0, s\<lparr>eof_reached := True\<rparr>)
      | b # bs \<Rightarrow> (b, s\<lparr>io_buf := bs, io_pos := io_pos s + 1\<rparr>))"

text \<open>Modelled from the spec: \<^verbatim>\<open>avio_rl16\<close> of libavformat/aviobuf.c, which is not
  among the sources. It reads 2 bytes as a little-endian value (spec 4.2, step 2), as an
  \<^verbatim>\<open>unsigned int\<close>.\<close>

definition avio_rl16 :: "avio_context \<Rightarrow> c_uint \<times> avio_context" where
  "avio_rl16 s =
     (let (b0, s1) = avio_r8 s;
          (b1, s2) = avio_r8 s1
      in (ucast b0 OR push_bit 8 (ucast b1), s2))"

text \<open>Modelled from the spec: \<^verbatim>\<open>avio_rl32\<close> of libavformat/aviobuf.c, which is not
  among the sources. It reads 4 bytes as a little-endian value.\<close>

definition avio_rl32 :: "avio_context \<Rightarrow> c_uint \<times> avio_context" where
  "avio_rl32 s =
     (let (lo, s1) = avio_rl16 s;
          (hi, s2) = avio_rl16 s1
      in (lo OR push_bit 16 hi, s2))"

text \<open>Modelled from the spec: \<^verbatim>\<open>avio_rl64\<close> of libavformat/aviobuf.c, which is not
  among the sources. It reads 8 bytes as a little-endian value (spec 4.2, step 1).\<close>

definition avio_rl64 :: "avio_context \<Rightarrow> 64 word \<times> avio_context" where
  "avio_rl64 s =
     (let (lo, s1) = avio_rl32 s;
          (hi, s2) = avio_rl32 s1
      in (ucast lo OR push_bit 32 (ucast hi), s2))"

text \<open>Modelled from the spec: \<^verbatim>\<open>avio_read\<close> of libavformat/aviobuf.c, which is not
  among the sources. It asks for \<open>sz\<close> bytes and delivers those that are left, at most
  \<open>sz\<close> (spec 5; spec 4.2, step 6: fewer bytes may be available). It returns the count
  of bytes delivered, or \<open>AVERROR_EOF\<close> when end-of-stream leaves none, together with
  the bytes and the input after the read.\<close>

definition avio_read :: "avio_context \<Rightarrow> nat \<Rightarrow> int \<times> uint8_t list \<times> avio_context" where
  "avio_read s sz =
     (let got = take sz (io_buf s);
          s' = s\<lparr>io_buf := drop sz (io_buf s),
                 io_pos := io_pos s + length got,
                 eof_reached := (eof_reached s \<or> length got < sz)\<rparr>
      in (if got = [] then (if eof_reached s' then AVERROR_EOF else 0)
          else int (length got),
          got, s'))"

text \<open>Modelled from the spec: \<^verbatim>\<open>avio_feof\<close> of libavformat/aviobuf.c, which is not
  among the sources. The input reports end-of-stream (spec 4.2) once a read has run
  into the end.\<close>

definition avio_feof :: "avio_context \<Rightarrow> bool" where
  "avio_feof s = eof_reached s"

text \<open>Modelled from the spec: \<^verbatim>\<open>avio_tell\<close> of libavformat/avio.h, which is not among
  the sources: the current cursor position (spec 4.2, step 7).\<close>

definition avio_tell :: "avio_context \<Rightarrow> int" where
  "avio_tell s = int (io_pos s)"

subsection \<open>Big-endian reads from a byte array (libavutil/intreadwrite.h)\<close>

text \<open>Modelled from the spec: the macro \<^verbatim>\<open>AV_RB8\<close> of libavutil/intreadwrite.h,
  which is not among the sources: the byte at an offset of a byte array.\<close>

definition AV_RB8 :: "uint8_t list \<Rightarrow> nat \<Rightarrow> uint8_t" where
  "AV_RB8 x off = x ! off"

text \<open>Modelled from the spec: the macro \<^verbatim>\<open>AV_RB16\<close> of libavutil/intreadwrite.h,
  which is not among the sources: the big-endian 16-bit value at an offset of a byte
  array (spec 3: the header fields are big-endian).\<close>

definition AV_RB16 :: "uint8_t list \<Rightarrow> nat \<Rightarrow> uint16_t" where
  "AV_RB16 x off = push_bit 8 (ucast (x ! off)) OR ucast (x ! (off + 1))"

subsection \<open>The demuxer's context\<close>

datatype AVMediaType = AVMEDIA_TYPE_UNKNOWN | AVMEDIA_TYPE_SUBTITLE

datatype AVCodecID = AV_CODEC_ID_NONE | AV_CODEC_ID_EIA_608

record avstream =
  codec_type :: AVMediaType
  codec_id :: AVCodecID
  pts_wrap_bits :: nat
  time_base_num :: nat
  time_base_den :: nat

record avpacket =
  pkt_data :: "uint8_t list"
  pkt_pts :: int64_t
  pkt_pos :: int

text \<open>An \<^verbatim>\<open>av_log\<close> call: the format string (without its final newline) and its
  arguments.\<close>

type_synonym log_entry = "string \<times> int list"

text \<open>\<^verbatim>\<open>AVFormatContext\<close> with its private \<^verbatim>\<open>RCWTContext\<close>: the input \<open>pb\<close>, the
  streams created so far, the subtitle queue \<open>q\<close> (\<^verbatim>\<open>rcwt->q\<close>) as the packets inserted,
  in insertion order, whether the queue has been finalized, and the log. Memory is an
  oracle: \<open>mem_ok k\<close> says whether request number \<open>k\<close> for memory succeeds, and
  \<open>nb_allocs\<close> counts the requests made.\<close>

record avformat_context =
  pb :: avio_context
  streams :: "avstream list"
  q :: "avpacket list"
  q_finalized :: bool
  logged :: "log_entry list"
  mem_ok :: "nat \<Rightarrow> bool"
  nb_allocs :: nat

definition av_log :: "avformat_context \<Rightarrow> string \<Rightarrow> int list \<Rightarrow> avformat_context" where
  "av_log avf fmt args = avf\<lparr>logged := logged avf @ [(fmt, args)]\<rparr>"

text \<open>One request for memory: the oracle's answer, and the context with the request
  counted.\<close>

definition mem_request :: "avformat_context \<Rightarrow> bool \<times> avformat_context" where
  "mem_request avf = (mem_ok avf (nb_allocs avf), avf\<lparr>nb_allocs := nb_allocs avf + 1\<rparr>)"

text \<open>Modelled from the spec: \<^verbatim>\<open>av_calloc\<close> of libavutil/mem.c, which is not among the
  sources. It allocates a buffer of \<open>nmemb * sz\<close> bytes or fails (spec 4.2, step 5); the
  result says whether the buffer was obtained. The content of the buffer is what
  \<^verbatim>\<open>avio_read\<close> then puts into it.\<close>

definition av_calloc :: "avformat_context \<Rightarrow> c_int \<Rightarrow> c_int \<Rightarrow> bool \<times> avformat_context" where
  "av_calloc avf nmemb sz = mem_request avf"

text \<open>Modelled from the spec: \<^verbatim>\<open>avformat_new_stream\<close> of libavformat, which is not
  among the sources: it adds one stream descriptor to the context and returns its index, or fails
  for lack of memory (spec 3, stream descriptor).\<close>

definition avformat_new_stream :: "avformat_context \<Rightarrow> nat option \<times> avformat_context" where
  "avformat_new_stream avf =
     (case mem_request avf of
        (False, avf') \<Rightarrow> (None, avf')
      | (True, avf') \<Rightarrow>
          (Some (length (streams avf')),
           avf'\<lparr>streams := streams avf' @
             [\<lparr>codec_type = AVMEDIA_TYPE_UNKNOWN, codec_id = AV_CODEC_ID_NONE,
               pts_wrap_bits = 0, time_base_num = 0, time_base_den = 0\<rparr>]\<rparr>))"

text \<open>Modelled from the spec: \<^verbatim>\<open>avpriv_set_pts_info\<close> of libavformat, which is not
  among the sources: it sets the clock resolution of a stream (spec 6: 1000 ticks per second).\<close>

definition avpriv_set_pts_info :: "avstream \<Rightarrow> nat \<Rightarrow> nat \<Rightarrow> nat \<Rightarrow> avstream" where
  "avpriv_set_pts_info st wrap_bits num den =
     st\<lparr>pts_wrap_bits := wrap_bits, time_base_num := num, time_base_den := den\<rparr>"

text \<open>Modelled from the spec: \<^verbatim>\<open>ff_subtitles_queue_insert\<close> of libavformat/subtitles.c,
  which is not among the sources (spec 6, ordered packet sink). It stores a copy of the
  first \<open>len\<close> bytes of the payload as a new packet behind the packets already inserted
  and returns a handle to it (here: its index), or fails for lack of memory; the caller
  then sets \<open>pts\<close> and \<open>stream_position\<close> through the handle. The last argument is
  always 0 in this demuxer and has no effect then.\<close>

definition ff_subtitles_queue_insert ::
  "avformat_context \<Rightarrow> uint8_t list \<Rightarrow> nat \<Rightarrow> int \<Rightarrow> nat option \<times> avformat_context" where
  "ff_subtitles_queue_insert avf event len merge =
     (case mem_request avf of
        (False, avf') \<Rightarrow> (None, avf')
      | (True, avf') \<Rightarrow>
          (Some (length (q avf')),
           avf'\<lparr>q := q avf' @ [\<lparr>pkt_data = take len event, pkt_pts = 0, pkt_pos = - 1\<rparr>]\<rparr>))"

text \<open>Modelled from the spec: \<^verbatim>\<open>ff_subtitles_queue_finalize\<close> of
  libavformat/subtitles.c, which is not among the sources (spec 6). It is called once
  after the loop; the ordering and the index the sink builds there are its own business
  (spec 1: out of scope), so the model keeps the packets as they were inserted and
  records the call.\<close>

definition ff_subtitles_queue_finalize :: "avformat_context \<Rightarrow> avformat_context" where
  "ff_subtitles_queue_finalize avf = avf\<lparr>q_finalized := True\<rparr>"

subsection \<open>The log messages of rcwtdec.c\<close>

definition msg_not_rcwt :: string where
  "msg_not_rcwt = ''Input is not an RCWT file''"

definition msg_writer :: string where
  "msg_writer = ''Input writing application is not supported, only 0xCC00 (ccextractor) or 0xFF00 (FFmpeg) are compatible''"

definition msg_version :: string where
  "msg_version = ''Input RCWT version is not compatible (only version 0.001 is known)''"

definition msg_ffmpeg_version :: string where
  "msg_ffmpeg_version = ''Input was written by a different version of FFmpeg and unsupported, consider upgrading''"

definition msg_cluster_size :: string where
  "msg_cluster_size = ''Input cluster has invalid size (expected=%d actual=%d pos=%ld)''"

subsection \<open>rcwt_read_header, lines 66 to 89: validate the header\<close>

definition rcwt_validate_header :: "avformat_context \<Rightarrow> ret \<times> avformat_context" where
  "rcwt_validate_header avf =
     (let (nb_bytes, got, pb') = avio_read (pb avf) RCWT_HEADER_SIZE;
          header = got @ replicate (RCWT_HEADER_SIZE - length got) 0;
          avf1 = avf\<lparr>pb := pb'\<rparr>
      in if nb_bytes \<noteq> int RCWT_HEADER_SIZE \<or> AV_RB16 header 0 \<noteq> 0xCCCC \<or> header ! 2 \<noteq> 0xED
         then (Inl AVERROR_INVALIDDATA, av_log avf1 msg_not_rcwt [])
         else if (header ! 3 \<noteq> 0xCC \<and> header ! 3 \<noteq> 0xFF) \<or> header ! 4 \<noteq> 0x00
         then (Inl AVERROR_INVALIDDATA, av_log avf1 msg_writer [])
         else if AV_RB16 header 6 \<noteq> 0x0001
         then (Inl AVERROR_INVALIDDATA, av_log avf1 msg_version [])
         else if header ! 3 = 0xFF \<and> header ! 5 \<noteq> 0x60
         then (Inl AVERROR_INVALIDDATA, av_log avf1 msg_ffmpeg_version [])
         else (Inr (), avf1))"

subsection \<open>rcwt_read_header, lines 102 to 133: the demux loop\<close>

text \<open>One run of the loop body. \<open>Inr ()\<close> is reaching the end of the body or its
  \<^verbatim>\<open>continue\<close>; \<open>Inl e\<close> is \<^verbatim>\<open>return e\<close>.\<close>

definition rcwt_read_cluster :: "avformat_context \<Rightarrow> ret \<times> avformat_context" where
  "rcwt_read_cluster avf =
     (let (cluster_pts, pb1) = avio_rl64 (pb avf);
          (cluster_nb_blocks, pb2) = avio_rl16 pb1;
          avf1 = avf\<lparr>pb := pb2\<rparr>
      in if cluster_nb_blocks = 0 then (Inr (), avf1)
         else
           let cluster_size = cluster_nb_blocks * RCWT_BLOCK_SIZE in
           (case av_calloc avf1 cluster_nb_blocks RCWT_BLOCK_SIZE of
              (False, avf2) \<Rightarrow> (Inl AVERROR_ENOMEM, avf2)
            | (True, avf2) \<Rightarrow>
                let (nb_bytes, cluster_buf, pb3) = avio_read (pb avf2) (nat (sint cluster_size));
                    avf3 = avf2\<lparr>pb := pb3\<rparr>
                in if nb_bytes \<noteq> sint cluster_size
                   then (Inl AVERROR_INVALIDDATA,
                         av_log avf3 msg_cluster_size
                           [sint cluster_size, nb_bytes, avio_tell (pb avf3)])
                   else
                     (case ff_subtitles_queue_insert avf3 cluster_buf (nat (sint cluster_size)) 0 of
                        (None, avf4) \<Rightarrow> (Inl AVERROR_ENOMEM, avf4)
                      | (Some sub, avf4) \<Rightarrow>
                          (Inr (),
                           avf4\<lparr>q := (q avf4)[sub := (q avf4 ! sub)
                                   \<lparr>pkt_pos := avio_tell (pb avf4),
                                    pkt_pts := cluster_pts\<rparr>]\<rparr>))))"

text \<open>The effect on the input of asking for \<open>n\<close> bytes: the bytes that are there
  are consumed, and \<open>eof_reached\<close> is raised when fewer than \<open>n\<close> are.\<close>

definition io_advance :: "avio_context \<Rightarrow> nat \<Rightarrow> avio_context" where
  "io_advance s n =
     s\<lparr>io_buf := drop n (io_buf s),
       io_pos := io_pos s + min n (length (io_buf s)),
       eof_reached := (eof_reached s \<or> length (io_buf s) < n)\<rparr>"

text \<open>The bound on the remaining work of the loop: the bytes left, plus one while
  \<open>eof_reached\<close> is still down.\<close>

definition io_measure :: "avio_context \<Rightarrow> nat" where
  "io_measure s = length (io_buf s) + (if eof_reached s then 0 else 1)"

text \<open>The loop \<^verbatim>\<open>while (!avio_feof(avf->pb)) { ... }\<close>. Each run of the body either
  consumes input or raises \<open>eof_reached\<close>, which is why the loop ends.\<close>

function rcwt_demux :: "avformat_context \<Rightarrow> ret \<times> avformat_context" where
  "rcwt_demux avf =
     (if avio_feof (pb avf) then (Inr (), avf)
      else
        (case rcwt_read_cluster avf of
           (Inl e, avf') \<Rightarrow> (Inl e, avf')
         | (Inr u, avf') \<Rightarrow> rcwt_demux avf'))"
  by pat_completeness auto

lemma avio_r8_measure_le: "io_measure (snd (avio_r8 s)) \<le> io_measure s"
  by (simp add: avio_r8_def io_measure_def split: list.split)

lemma avio_r8_measure_less:
  "\<not> eof_reached s \<Longrightarrow> io_measure (snd (avio_r8 s)) < io_measure s"
  by (simp add: avio_r8_def io_measure_def split: list.split)

lemma avio_rl16_measure_le: "io_measure (snd (avio_rl16 s)) \<le> io_measure s"
  unfolding avio_rl16_def Let_def split_def snd_conv
  by (rule order_trans [OF avio_r8_measure_le avio_r8_measure_le])

lemma avio_rl16_measure_less:
  "\<not> eof_reached s \<Longrightarrow> io_measure (snd (avio_rl16 s)) < io_measure s"
  unfolding avio_rl16_def Let_def split_def snd_conv
  by (rule le_less_trans [OF avio_r8_measure_le avio_r8_measure_less])

lemma avio_rl32_measure_le: "io_measure (snd (avio_rl32 s)) \<le> io_measure s"
  unfolding avio_rl32_def Let_def split_def snd_conv
  by (rule order_trans [OF avio_rl16_measure_le avio_rl16_measure_le])

lemma avio_rl32_measure_less:
  "\<not> eof_reached s \<Longrightarrow> io_measure (snd (avio_rl32 s)) < io_measure s"
  unfolding avio_rl32_def Let_def split_def snd_conv
  by (rule le_less_trans [OF avio_rl16_measure_le avio_rl16_measure_less])

lemma avio_rl64_measure_less:
  "\<not> eof_reached s \<Longrightarrow> io_measure (snd (avio_rl64 s)) < io_measure s"
  unfolding avio_rl64_def Let_def split_def snd_conv
  by (rule le_less_trans [OF avio_rl32_measure_le avio_rl32_measure_less])

lemma avio_read_measure_le: "io_measure (snd (snd (avio_read s n))) \<le> io_measure s"
  by (simp add: avio_read_def io_measure_def Let_def)

lemma rcwt_read_cluster_measure:
  assumes "\<not> avio_feof (pb avf)"
  shows "io_measure (pb (snd (rcwt_read_cluster avf))) < io_measure (pb avf)"
proof -
  let ?s1 = "snd (avio_rl64 (pb avf))"
  let ?s2 = "snd (avio_rl16 ?s1)"
  have a: "io_measure ?s2 < io_measure (pb avf)"
    using assms avio_rl64_measure_less [of "pb avf"] avio_rl16_measure_le [of ?s1]
    by (simp add: avio_feof_def)
  have b: "io_measure (snd (snd (avio_read ?s2 n))) < io_measure (pb avf)" for n
    using a avio_read_measure_le [of ?s2 n] by simp
  show ?thesis
    using a b
    by (simp add: rcwt_read_cluster_def Let_def av_calloc_def mem_request_def
        ff_subtitles_queue_insert_def av_log_def split_def
        split: bool.split option.split)
qed

termination rcwt_demux
  apply (relation "measure (\<lambda>avf. io_measure (pb avf))")
   apply simp
  subgoal for avf x r y
    using rcwt_read_cluster_measure [of avf] by (metis in_measure snd_conv)
  done

declare rcwt_demux.simps [simp del]

subsection \<open>rcwt_read_header, the whole function\<close>

definition rcwt_read_header :: "avformat_context \<Rightarrow> ret \<times> avformat_context" where
  "rcwt_read_header avf =
     (case rcwt_validate_header avf of
        (Inl e, avf1) \<Rightarrow> (Inl e, avf1)
      | (Inr u, avf1) \<Rightarrow>
          (case avformat_new_stream avf1 of
             (None, avf2) \<Rightarrow> (Inl AVERROR_ENOMEM, avf2)
           | (Some st, avf2) \<Rightarrow>
               let avf3 = avf2\<lparr>streams := (streams avf2)
                            [st := avpriv_set_pts_info
                               ((streams avf2 ! st)\<lparr>codec_type := AVMEDIA_TYPE_SUBTITLE,
                                                     codec_id := AV_CODEC_ID_EIA_608\<rparr>)
                               64 1 1000]\<rparr>
               in (case rcwt_demux avf3 of
                     (Inl e, avf4) \<Rightarrow> (Inl e, avf4)
                   | (Inr u, avf4) \<Rightarrow> (Inr (), ff_subtitles_queue_finalize avf4))))"

subsection \<open>rcwt_probe\<close>

text \<open>\<^verbatim>\<open>AVProbeData\<close>: the probe buffer and the count of bytes it offers.\<close>

record avprobedata =
  buf :: "uint8_t list"
  buf_size :: int

definition rcwt_probe :: "avprobedata \<Rightarrow> int" where
  "rcwt_probe p =
     (if buf_size p > int RCWT_HEADER_SIZE \<and>
         AV_RB16 (buf p) 0 = 0xCCCC \<and> AV_RB8 (buf p) 2 = 0xED
      then 50 else 0)"

subsection \<open>A freshly opened input\<close>

text \<open>The context \<^verbatim>\<open>rcwt_read_header\<close> is called with when an input is opened: the
  cursor at the start of the bytes, no stream, an empty queue, nothing logged.\<close>

definition open_input :: "(nat \<Rightarrow> bool) \<Rightarrow> uint8_t list \<Rightarrow> avformat_context" where
  "open_input mem bytes =
     \<lparr>pb = \<lparr>io_buf = bytes, io_pos = 0, eof_reached = False\<rparr>,
      streams = [], q = [], q_finalized = False, logged = [],
      mem_ok = mem, nb_allocs = 0\<rparr>"

subsection \<open>The wire format of a cluster (spec 3 and 6)\<close>

text \<open>A cluster record as the specification describes it, and its bytes on the wire:
  \<open>pts\<close> as 8 bytes little-endian, \<open>block_count\<close> as 2 bytes little-endian, then the
  payload. These follow the specification's wire format, not the demuxer; the theorems
  compare what the demuxer reads with them.\<close>

record cluster =
  c_pts :: int64_t
  c_block_count :: uint16_t
  c_payload :: "uint8_t list"

definition le_bytes64 :: "64 word \<Rightarrow> uint8_t list" where
  "le_bytes64 w = map (\<lambda>i. ucast (drop_bit (8 * i) w)) [0, 1, 2, 3, 4, 5, 6, 7]"

definition le_bytes16 :: "16 word \<Rightarrow> uint8_t list" where
  "le_bytes16 w = [ucast w, ucast (drop_bit 8 w)]"

definition cluster_wf :: "cluster \<Rightarrow> bool" where
  "cluster_wf c = (length (c_payload c) = 3 * unat (c_block_count c))"

definition wire_cluster :: "cluster \<Rightarrow> uint8_t list" where
  "wire_cluster c = le_bytes64 (c_pts c) @ le_bytes16 (c_block_count c) @ c_payload c"

subsection \<open>Notions used to state the theorems\<close>

text \<open>The byte at an index of the bytes left, zero beyond their end: what a read of one
  byte at that distance delivers.\<close>

definition byte_at :: "uint8_t list \<Rightarrow> nat \<Rightarrow> uint8_t" where
  "byte_at xs i = (if i < length xs then xs ! i else 0)"

text \<open>A sequence of cluster records on the wire, one behind the other.\<close>

definition wire_clusters :: "cluster list \<Rightarrow> uint8_t list" where
  "wire_clusters cs = concat (map wire_cluster cs)"

text \<open>The packets the specification expects for a sequence of cluster records that
  starts at stream position \<open>p\<close>: one per cluster with a nonzero block count, in
  stream order, with the record's payload and \<open>pts\<close>, positioned behind its payload.\<close>

fun cluster_packets :: "nat \<Rightarrow> cluster list \<Rightarrow> avpacket list" where
  "cluster_packets p [] = []"
| "cluster_packets p (c # cs) =
     (if c_block_count c = 0 then []
      else [\<lparr>pkt_data = c_payload c, pkt_pts = c_pts c,
             pkt_pos = int (p + 10 + length (c_payload c))\<rparr>]) @
     cluster_packets (p + 10 + length (c_payload c)) cs"

text \<open>The one stream descriptor of the format (spec 3): a subtitle stream of closed
  captions with a clock of 1000 ticks per second.\<close>

definition rcwt_stream :: avstream where
  "rcwt_stream = \<lparr>codec_type = AVMEDIA_TYPE_SUBTITLE, codec_id = AV_CODEC_ID_EIA_608,
                   pts_wrap_bits = 64, time_base_num = 1, time_base_den = 1000\<rparr>"

text \<open>The context when the loop starts, for a header that was accepted and a stream
  that could be created.\<close>

definition after_setup :: "avformat_context \<Rightarrow> avformat_context" where
  "after_setup avf =
     avf\<lparr>pb := io_advance (pb avf) 11, nb_allocs := nb_allocs avf + 1,
         streams := streams avf @ [rcwt_stream]\<rparr>"

section \<open>Facts about the byte and word operations\<close>

lemma rb16_hi:
  "ucast (drop_bit 8 (push_bit 8 (ucast (a::8 word)) OR ucast (b::8 word) :: 16 word)) = a"
  by (rule bit_word_eqI) (auto simp: bit_simps dest: bit_imp_le_length)

lemma rb16_lo: "ucast ((push_bit 8 (ucast (a::8 word)) OR ucast (b::8 word) :: 16 word)) = b"
  by (rule bit_word_eqI) (auto simp: bit_simps dest: bit_imp_le_length)

lemma rb16_join:
  "(push_bit 8 (ucast (ucast (drop_bit 8 c) :: 8 word)) OR ucast (ucast c :: 8 word) :: 16 word) = c"
  by (rule bit_word_eqI) (auto simp: bit_simps dest: bit_imp_le_length)

lemma rb16_eq_iff:
  "(push_bit 8 (ucast (a::8 word)) OR ucast (b::8 word) :: 16 word) = c \<longleftrightarrow>
     a = ucast (drop_bit 8 c) \<and> b = ucast c"
  using rb16_hi [of a b] rb16_lo [of a b] rb16_join [of c] by auto

lemma byte_of_CCCC: "(52428 :: 8 word) = 204"
  by simp

lemma AV_RB16_CCCC:
  "AV_RB16 x off = 0xCCCC \<longleftrightarrow> x ! off = 0xCC \<and> x ! (off + 1) = 0xCC"
  by (simp add: AV_RB16_def rb16_eq_iff byte_of_CCCC)

lemma AV_RB16_0001: "AV_RB16 x off = 0x0001 \<longleftrightarrow> x ! off = 0 \<and> x ! (off + 1) = 1"
  by (simp add: AV_RB16_def rb16_eq_iff)

lemma rl16_take_bit:
  "take_bit 16 (ucast (a::8 word) OR push_bit 8 (ucast (b::8 word)) :: 32 word) =
     (ucast a OR push_bit 8 (ucast b))"
  by (rule bit_word_eqI) (auto simp: bit_simps dest: bit_imp_le_length)

lemma rl16_bound: "uint (ucast (a::8 word) OR push_bit 8 (ucast (b::8 word)) :: 32 word) < 65536"
proof -
  let ?x = "ucast a OR push_bit 8 (ucast b) :: 32 word"
  have "uint ?x = uint (take_bit 16 ?x)" by (simp only: rl16_take_bit)
  also have "\<dots> = take_bit 16 (uint ?x)" by (rule unsigned_take_bit_eq)
  also have "\<dots> < 2 ^ 16" by (rule take_bit_int_less_exp)
  finally show ?thesis by simp
qed

lemma avio_rl16_bound: "uint (fst (avio_rl16 s)) < 65536"
  by (simp add: avio_rl16_def Let_def split_def rl16_bound)

lemma mul3_uint: "uint (n :: 32 word) < 65536 \<Longrightarrow> uint (n * 3) = 3 * uint n"
  by (simp add: uint_word_ariths)

lemma mul3_sint: "uint (n :: 32 word) < 65536 \<Longrightarrow> sint (n * 3) = 3 * uint n"
proof -
  assume b: "uint n < 65536"
  have c: "uint (n * 3) = 3 * uint n" using b by (rule mul3_uint)
  have d: "- 2147483648 \<le> 3 * uint n" using uint_ge_0 [of n] by linarith
  have "sint (n * 3) = signed_take_bit 31 (uint (n * 3))" by (simp add: sint_uint)
  also have "\<dots> = 3 * uint n" unfolding c
    using b d by (simp add: signed_take_bit_int_eq_self_iff)
  finally show ?thesis .
qed

section \<open>The probe\<close>

text \<open>C6. For a probe buffer that holds the bytes it offers (\<^verbatim>\<open>buf_size\<close> is not larger
  than the buffer), \<^verbatim>\<open>rcwt_probe\<close> returns 50 if at least 12 bytes are offered and the
  first three are 0xCC 0xCC 0xED, and 0 in every other case; with 11 bytes or fewer the
  score is 0 whatever the bytes.\<close>

theorem rcwt_probe_score:
  assumes "buf_size p \<le> int (length (buf p))"
  shows "rcwt_probe p =
           (if 12 \<le> buf_size p \<and> take 3 (buf p) = [0xCC, 0xCC, 0xED] then 50 else 0)"
proof (cases "12 \<le> buf_size p")
  case False
  then show ?thesis by (simp add: rcwt_probe_def RCWT_HEADER_SIZE_def)
next
  case True
  with assms have "3 \<le> length (buf p)" by simp
  then obtain a b c rest where xs: "buf p = a # b # c # rest"
    by (metis Suc_le_length_iff numeral_3_eq_3)
  show ?thesis
    using True
    by (auto simp add: rcwt_probe_def RCWT_HEADER_SIZE_def AV_RB16_CCCC AV_RB8_def xs)
qed

theorem rcwt_probe_score_witness:
  "rcwt_probe \<lparr>buf = [0xCC, 0xCC, 0xED, 0xCC, 0, 0, 0, 1, 0, 0, 0, 7], buf_size = 12\<rparr> = 50 \<and>
   rcwt_probe \<lparr>buf = [0xCC, 0xCC, 0xED, 0xCC, 0, 0, 0, 1, 0, 0, 0], buf_size = 11\<rparr> = 0"
  using rcwt_probe_score [of "\<lparr>buf = [0xCC, 0xCC, 0xED, 0xCC, 0, 0, 0, 1, 0, 0, 0, 7], buf_size = 12\<rparr>"]
    rcwt_probe_score [of "\<lparr>buf = [0xCC, 0xCC, 0xED, 0xCC, 0, 0, 0, 1, 0, 0, 0], buf_size = 11\<rparr>"]
  by simp

section \<open>What the reads do to the input\<close>

lemma io_advance_0: "io_advance s 0 = s"
  by (simp add: io_advance_def)

lemma io_advance_add: "io_advance (io_advance s m) n = io_advance s (m + n)"
  by (auto simp add: io_advance_def add.commute min_def)

lemma avio_read_state: "snd (snd (avio_read s n)) = io_advance s n"
  by (simp add: avio_read_def io_advance_def Let_def min_def)

lemma avio_r8_state: "snd (avio_r8 s) = io_advance s 1"
  by (cases "io_buf s") (simp_all add: avio_r8_def io_advance_def)

lemma avio_rl16_state: "snd (avio_rl16 s) = io_advance s 2"
proof -
  have "snd (avio_rl16 s) = io_advance (io_advance s 1) 1"
    by (simp add: avio_rl16_def Let_def split_def avio_r8_state)
  also have "\<dots> = io_advance s (1 + 1)" by (rule io_advance_add)
  finally show ?thesis by (simp add: numeral_2_eq_2)
qed

lemma avio_rl32_state: "snd (avio_rl32 s) = io_advance s 4"
proof -
  have "snd (avio_rl32 s) = io_advance (io_advance s 2) 2"
    by (simp add: avio_rl32_def Let_def split_def avio_rl16_state)
  also have "\<dots> = io_advance s (2 + 2)" by (rule io_advance_add)
  finally show ?thesis by simp
qed

lemma avio_rl64_state: "snd (avio_rl64 s) = io_advance s 8"
proof -
  have "snd (avio_rl64 s) = io_advance (io_advance s 4) 4"
    by (simp add: avio_rl64_def Let_def split_def avio_rl32_state)
  also have "\<dots> = io_advance s (4 + 4)" by (rule io_advance_add)
  finally show ?thesis by simp
qed

lemma io_advance_append:
  "io_buf s = h @ rest \<Longrightarrow> io_advance s (length h) = s\<lparr>io_buf := rest, io_pos := io_pos s + length h\<rparr>"
  by (simp add: io_advance_def)

lemma avio_read_append:
  assumes "io_buf s = h @ rest" and "length h = n" and "0 < n"
  shows "avio_read s n = (int n, h, s\<lparr>io_buf := rest, io_pos := io_pos s + n\<rparr>)"
  using assms by (auto simp add: avio_read_def Let_def)

lemma rcwt_validate_header_pb: "pb (snd (rcwt_validate_header avf)) = io_advance (pb avf) 11"
  using avio_read_state [of "pb avf" 11]
  by (simp add: rcwt_validate_header_def Let_def split_def av_log_def RCWT_HEADER_SIZE_def)

lemma rcwt_validate_header_bytes:
  assumes "io_buf (pb avf) = [h0, h1, h2, h3, h4, h5, h6, h7, h8, h9, h10] @ rest"
  shows "rcwt_validate_header avf =
    (let avf1 = avf\<lparr>pb := (pb avf)\<lparr>io_buf := rest, io_pos := io_pos (pb avf) + 11\<rparr>\<rparr> in
     if \<not> (h0 = 0xCC \<and> h1 = 0xCC \<and> h2 = 0xED)
     then (Inl AVERROR_INVALIDDATA, av_log avf1 msg_not_rcwt [])
     else if \<not> ((h3 = 0xCC \<or> h3 = 0xFF) \<and> h4 = 0)
     then (Inl AVERROR_INVALIDDATA, av_log avf1 msg_writer [])
     else if \<not> (h6 = 0 \<and> h7 = 1)
     then (Inl AVERROR_INVALIDDATA, av_log avf1 msg_version [])
     else if h3 = 0xFF \<and> h5 \<noteq> 0x60
     then (Inl AVERROR_INVALIDDATA, av_log avf1 msg_ffmpeg_version [])
     else (Inr (), avf1))"
proof -
  let ?h = "[h0, h1, h2, h3, h4, h5, h6, h7, h8, h9, h10]"
  have r: "avio_read (pb avf) RCWT_HEADER_SIZE =
      (11, ?h, (pb avf)\<lparr>io_buf := rest, io_pos := io_pos (pb avf) + 11\<rparr>)"
    unfolding RCWT_HEADER_SIZE_def
    using assms by (intro avio_read_append [where n = 11, simplified]) simp_all
  show ?thesis
    unfolding rcwt_validate_header_def r
    by (simp add: Let_def RCWT_HEADER_SIZE_def AV_RB16_CCCC AV_RB16_0001)
qed

section \<open>Header validation\<close>

lemma msgs_distinct: "distinct [msg_not_rcwt, msg_writer, msg_version, msg_ffmpeg_version]"
  by (simp add: msg_not_rcwt_def msg_writer_def msg_version_def msg_ffmpeg_version_def)

text \<open>C3, as amended. On an input of at least 11 bytes the four checks run in the order
  magic, writer and reserved byte, version, FFmpeg build, and the first that fails ends
  the validation. Every failing check returns the same error code
  \<^verbatim>\<open>AVERROR_INVALIDDATA\<close>; what tells the four failures apart is the message logged,
  one per check and pairwise different. The header is accepted exactly when all four
  checks pass.\<close>

theorem rcwt_validate_header_checks:
  assumes "io_buf (pb avf) = [h0, h1, h2, h3, h4, h5, h6, h7, h8, h9, h10] @ rest"
  shows "fst (rcwt_validate_header avf) =
           (if h0 = 0xCC \<and> h1 = 0xCC \<and> h2 = 0xED \<and> (h3 = 0xCC \<or> h3 = 0xFF) \<and> h4 = 0 \<and>
               h6 = 0 \<and> h7 = 1 \<and> (h3 = 0xCC \<or> h5 = 0x60)
            then Inr () else Inl AVERROR_INVALIDDATA) \<and>
         logged (snd (rcwt_validate_header avf)) = logged avf @
           (if \<not> (h0 = 0xCC \<and> h1 = 0xCC \<and> h2 = 0xED) then [(msg_not_rcwt, [])]
            else if \<not> ((h3 = 0xCC \<or> h3 = 0xFF) \<and> h4 = 0) then [(msg_writer, [])]
            else if \<not> (h6 = 0 \<and> h7 = 1) then [(msg_version, [])]
            else if h3 = 0xFF \<and> h5 \<noteq> 0x60 then [(msg_ffmpeg_version, [])]
            else []) \<and>
         distinct [msg_not_rcwt, msg_writer, msg_version, msg_ffmpeg_version]"
proof (intro conjI)
  note v = rcwt_validate_header_bytes [OF assms]
  show "fst (rcwt_validate_header avf) =
           (if h0 = 0xCC \<and> h1 = 0xCC \<and> h2 = 0xED \<and> (h3 = 0xCC \<or> h3 = 0xFF) \<and> h4 = 0 \<and>
               h6 = 0 \<and> h7 = 1 \<and> (h3 = 0xCC \<or> h5 = 0x60)
            then Inr () else Inl AVERROR_INVALIDDATA)"
    unfolding v by (simp add: Let_def)
  show "logged (snd (rcwt_validate_header avf)) = logged avf @
           (if \<not> (h0 = 0xCC \<and> h1 = 0xCC \<and> h2 = 0xED) then [(msg_not_rcwt, [])]
            else if \<not> ((h3 = 0xCC \<or> h3 = 0xFF) \<and> h4 = 0) then [(msg_writer, [])]
            else if \<not> (h6 = 0 \<and> h7 = 1) then [(msg_version, [])]
            else if h3 = 0xFF \<and> h5 \<noteq> 0x60 then [(msg_ffmpeg_version, [])]
            else [])"
    unfolding v by (simp add: Let_def av_log_def)
  show "distinct [msg_not_rcwt, msg_writer, msg_version, msg_ffmpeg_version]"
    by (rule msgs_distinct)
qed

theorem rcwt_validate_header_checks_witness:
  "fst (rcwt_validate_header
          (open_input (\<lambda>k. True) [0xCC, 0xCC, 0xED, 0x01, 0, 0, 0, 2, 0, 0, 0, 9, 9])) =
     Inl AVERROR_INVALIDDATA \<and>
   logged (snd (rcwt_validate_header
          (open_input (\<lambda>k. True) [0xCC, 0xCC, 0xED, 0x01, 0, 0, 0, 2, 0, 0, 0, 9, 9]))) =
     [(msg_writer, [])]"
  using rcwt_validate_header_checks
    [of "open_input (\<lambda>k. True) [0xCC, 0xCC, 0xED, 0x01, 0, 0, 0, 2, 0, 0, 0, 9, 9]"
        "0xCC" "0xCC" "0xED" "0x01" 0 0 0 2 0 0 0 "[9, 9]"]
  by (simp add: open_input_def)

text \<open>C3 as stated fails: four inputs, each failing a different check (magic, writer,
  version, FFmpeg build), make \<^verbatim>\<open>rcwt_read_header\<close> return one and the same error
  code.\<close>

theorem rcwt_read_header_same_error_code:
  "fst (rcwt_read_header (open_input (\<lambda>k. True) [0x00, 0xCC, 0xED, 0xCC, 0, 0, 0, 1, 0, 0, 0])) =
     Inl AVERROR_INVALIDDATA \<and>
   fst (rcwt_read_header (open_input (\<lambda>k. True) [0xCC, 0xCC, 0xED, 0x01, 0, 0, 0, 1, 0, 0, 0])) =
     Inl AVERROR_INVALIDDATA \<and>
   fst (rcwt_read_header (open_input (\<lambda>k. True) [0xCC, 0xCC, 0xED, 0xCC, 0, 0, 0, 2, 0, 0, 0])) =
     Inl AVERROR_INVALIDDATA \<and>
   fst (rcwt_read_header (open_input (\<lambda>k. True) [0xCC, 0xCC, 0xED, 0xFF, 0, 0, 0, 1, 0, 0, 0])) =
     Inl AVERROR_INVALIDDATA"
  by code_simp

text \<open>C9. Whether the header is accepted or rejected, validation leaves the input with
  its first 11 bytes consumed and the cursor 11 bytes further; when fewer than 11 bytes
  were left, all of them are consumed, the cursor is at the end of the stream and
  end-of-stream is raised. The bytes behind the header are untouched.\<close>

theorem rcwt_validate_header_cursor:
  "io_buf (pb (snd (rcwt_validate_header avf))) = drop 11 (io_buf (pb avf)) \<and>
   io_pos (pb (snd (rcwt_validate_header avf))) =
     io_pos (pb avf) + min 11 (length (io_buf (pb avf))) \<and>
   eof_reached (pb (snd (rcwt_validate_header avf))) =
     (eof_reached (pb avf) \<or> length (io_buf (pb avf)) < 11)"
  by (simp add: rcwt_validate_header_pb io_advance_def)

theorem rcwt_validate_header_cursor_witness:
  "io_pos (pb (snd (rcwt_validate_header
      (open_input (\<lambda>k. True) [0xCC, 0xCC, 0xED, 0xCC, 0, 0, 0, 1, 0, 0, 0, 9, 9])))) = 11 \<and>
   io_pos (pb (snd (rcwt_validate_header
      (open_input (\<lambda>k. True) [0x00, 0xCC, 0xED, 0xCC, 0, 0, 0, 1, 0, 0, 0, 9, 9])))) = 11 \<and>
   io_pos (pb (snd (rcwt_validate_header
      (open_input (\<lambda>k. True) [0xCC, 0xCC, 0xED, 0xCC, 0])))) = 5 \<and>
   io_buf (pb (snd (rcwt_validate_header
      (open_input (\<lambda>k. True) [0xCC, 0xCC, 0xED, 0xCC, 0])))) = []"
  using rcwt_validate_header_cursor
      [of "open_input (\<lambda>k. True) [0xCC, 0xCC, 0xED, 0xCC, 0, 0, 0, 1, 0, 0, 0, 9, 9]"]
    rcwt_validate_header_cursor
      [of "open_input (\<lambda>k. True) [0x00, 0xCC, 0xED, 0xCC, 0, 0, 0, 1, 0, 0, 0, 9, 9]"]
    rcwt_validate_header_cursor
      [of "open_input (\<lambda>k. True) [0xCC, 0xCC, 0xED, 0xCC, 0]"]
  by (simp add: open_input_def)

lemma rcwt_validate_header_frame:
  "streams (snd (rcwt_validate_header avf)) = streams avf \<and>
   q (snd (rcwt_validate_header avf)) = q avf \<and>
   q_finalized (snd (rcwt_validate_header avf)) = q_finalized avf \<and>
   mem_ok (snd (rcwt_validate_header avf)) = mem_ok avf \<and>
   nb_allocs (snd (rcwt_validate_header avf)) = nb_allocs avf"
  by (simp add: rcwt_validate_header_def Let_def split_def av_log_def)

lemma rcwt_validate_header_error:
  "fst (rcwt_validate_header avf) = Inr () \<or> fst (rcwt_validate_header avf) = Inl AVERROR_INVALIDDATA"
  by (simp add: rcwt_validate_header_def Let_def split_def)

text \<open>C7. When the header fails validation, \<^verbatim>\<open>rcwt_read_header\<close> returns
  \<^verbatim>\<open>AVERROR_INVALIDDATA\<close> and the output state is as before the call: no packet is
  queued, no stream is created, the queue is not finalized and no memory is requested.\<close>

theorem rcwt_read_header_invalid_header:
  assumes "fst (rcwt_validate_header avf) \<noteq> Inr ()"
  shows "fst (rcwt_read_header avf) = Inl AVERROR_INVALIDDATA \<and>
         q (snd (rcwt_read_header avf)) = q avf \<and>
         streams (snd (rcwt_read_header avf)) = streams avf \<and>
         q_finalized (snd (rcwt_read_header avf)) = q_finalized avf \<and>
         nb_allocs (snd (rcwt_read_header avf)) = nb_allocs avf"
proof -
  obtain r avf1 where v: "rcwt_validate_header avf = (r, avf1)" by (cases "rcwt_validate_header avf")
  with assms rcwt_validate_header_error [of avf] have r: "r = Inl AVERROR_INVALIDDATA" by simp
  have "rcwt_read_header avf = (Inl AVERROR_INVALIDDATA, avf1)"
    by (simp add: rcwt_read_header_def v r)
  then show ?thesis using rcwt_validate_header_frame [of avf] by (simp add: v)
qed

theorem rcwt_read_header_invalid_header_witness:
  "fst (rcwt_validate_header (open_input (\<lambda>k. True)
      [0xCC, 0xCC, 0xED, 0xFF, 0, 0, 0, 1, 0, 0, 0,
       0xDC, 5, 0, 0, 0, 0, 0, 0, 2, 0, 1, 2, 3, 4, 5, 6])) \<noteq> Inr () \<and>
   fst (rcwt_read_header (open_input (\<lambda>k. True)
      [0xCC, 0xCC, 0xED, 0xFF, 0, 0, 0, 1, 0, 0, 0,
       0xDC, 5, 0, 0, 0, 0, 0, 0, 2, 0, 1, 2, 3, 4, 5, 6])) = Inl AVERROR_INVALIDDATA \<and>
   q (snd (rcwt_read_header (open_input (\<lambda>k. True)
      [0xCC, 0xCC, 0xED, 0xFF, 0, 0, 0, 1, 0, 0, 0,
       0xDC, 5, 0, 0, 0, 0, 0, 0, 2, 0, 1, 2, 3, 4, 5, 6]))) = [] \<and>
   streams (snd (rcwt_read_header (open_input (\<lambda>k. True)
      [0xCC, 0xCC, 0xED, 0xFF, 0, 0, 0, 1, 0, 0, 0,
       0xDC, 5, 0, 0, 0, 0, 0, 0, 2, 0, 1, 2, 3, 4, 5, 6]))) = []"
proof -
  let ?avf = "open_input (\<lambda>k. True)
      [0xCC, 0xCC, 0xED, 0xFF, 0, 0, 0, 1, 0, 0, 0,
       0xDC, 5, 0, 0, 0, 0, 0, 0, 2, 0, 1, 2, 3, 4, 5, 6]"
  have h: "fst (rcwt_validate_header ?avf) \<noteq> Inr ()" by code_simp
  have e: "q ?avf = [] \<and> streams ?avf = []" by (simp add: open_input_def)
  show ?thesis using h e rcwt_read_header_invalid_header [OF h] by simp
qed

text \<open>C4. For an 11-byte header whose magic, reserved byte and version are right: with
  writer id 0xFF validation succeeds exactly when the writer subversion is 0x60, and
  otherwise fails with \<^verbatim>\<open>AVERROR_INVALIDDATA\<close> and the message about a different version
  of FFmpeg; with writer id 0xCC it succeeds whatever the subversion byte.\<close>

theorem rcwt_validate_header_writer_build:
  assumes "io_buf (pb avf) = [0xCC, 0xCC, 0xED, w, 0, sv, 0, 1, x, y, z] @ rest"
  shows "(w = 0xFF \<longrightarrow>
            (fst (rcwt_validate_header avf) = Inr () \<longleftrightarrow> sv = 0x60) \<and>
            (sv \<noteq> 0x60 \<longrightarrow>
               fst (rcwt_validate_header avf) = Inl AVERROR_INVALIDDATA \<and>
               logged (snd (rcwt_validate_header avf)) = logged avf @ [(msg_ffmpeg_version, [])])) \<and>
         (w = 0xCC \<longrightarrow> fst (rcwt_validate_header avf) = Inr ())"
  unfolding rcwt_validate_header_bytes [OF assms]
  by (simp add: Let_def av_log_def)

theorem rcwt_validate_header_writer_build_witness:
  "fst (rcwt_validate_header (open_input (\<lambda>k. True)
      [0xCC, 0xCC, 0xED, 0xFF, 0, 0x60, 0, 1, 0, 0, 0])) = Inr () \<and>
   fst (rcwt_validate_header (open_input (\<lambda>k. True)
      [0xCC, 0xCC, 0xED, 0xFF, 0, 0x00, 0, 1, 0, 0, 0])) = Inl AVERROR_INVALIDDATA \<and>
   fst (rcwt_validate_header (open_input (\<lambda>k. True)
      [0xCC, 0xCC, 0xED, 0xCC, 0, 0x37, 0, 1, 0, 0, 0])) = Inr ()"
  using rcwt_validate_header_writer_build
      [of "open_input (\<lambda>k. True) [0xCC, 0xCC, 0xED, 0xFF, 0, 0x60, 0, 1, 0, 0, 0]"
          "0xFF" "0x60" 0 0 0 "[]"]
    rcwt_validate_header_writer_build
      [of "open_input (\<lambda>k. True) [0xCC, 0xCC, 0xED, 0xFF, 0, 0x00, 0, 1, 0, 0, 0]"
          "0xFF" "0x00" 0 0 0 "[]"]
    rcwt_validate_header_writer_build
      [of "open_input (\<lambda>k. True) [0xCC, 0xCC, 0xED, 0xCC, 0, 0x37, 0, 1, 0, 0, 0]"
          "0xCC" "0x37" 0 0 0 "[]"]
  by (simp add: open_input_def)

section \<open>Little-endian reads and the demux loop\<close>

lemma join16: "(ucast (ucast (v::64 word) :: 8 word) OR push_bit 8 (ucast (ucast (drop_bit 8 v) :: 8 word)) :: 32 word) = ucast (ucast v :: 16 word)"
  by (rule bit_word_eqI) (auto simp: bit_simps dest: bit_imp_le_length)

lemma join32: "(ucast (ucast (v::64 word) :: 16 word) OR push_bit 16 (ucast (ucast (drop_bit 16 v) :: 16 word)) :: 32 word) = ucast v"
  by (rule bit_word_eqI) (auto simp: bit_simps dest: bit_imp_le_length)

lemma join64: "(ucast (ucast (v::64 word) :: 32 word) OR push_bit 32 (ucast (ucast (drop_bit 32 v) :: 32 word)) :: 64 word) = v"
  by (rule bit_word_eqI) (auto simp: bit_simps dest: bit_imp_le_length)

lemma rl32_word:
  "((ucast (ucast (v::64 word) :: 8 word) OR push_bit 8 (ucast (ucast (drop_bit 8 v) :: 8 word))) OR
    push_bit 16 (ucast (ucast (drop_bit 16 v) :: 8 word) OR
                 push_bit 8 (ucast (ucast (drop_bit 24 v) :: 8 word))) :: 32 word) = ucast v"
proof -
  have a: "drop_bit 24 v = drop_bit 8 (drop_bit 16 v)" by simp
  show ?thesis
    unfolding a join16 by (rule join32)
qed

lemma rl64_word:
  "(ucast ((ucast (ucast (w::64 word) :: 8 word) OR push_bit 8 (ucast (ucast (drop_bit 8 w) :: 8 word))) OR
      push_bit 16 (ucast (ucast (drop_bit 16 w) :: 8 word) OR
                   push_bit 8 (ucast (ucast (drop_bit 24 w) :: 8 word))) :: 32 word) OR
    push_bit 32 (ucast ((ucast (ucast (drop_bit 32 w) :: 8 word) OR
                         push_bit 8 (ucast (ucast (drop_bit 40 w) :: 8 word))) OR
      push_bit 16 (ucast (ucast (drop_bit 48 w) :: 8 word) OR
                   push_bit 8 (ucast (ucast (drop_bit 56 w) :: 8 word))) :: 32 word))) = w"
proof -
  have a: "drop_bit 40 w = drop_bit 8 (drop_bit 32 w)"
    "drop_bit 48 w = drop_bit 16 (drop_bit 32 w)"
    "drop_bit 56 w = drop_bit 24 (drop_bit 32 w)" by simp_all
  show ?thesis
    unfolding a rl32_word by (rule join64)
qed

lemma rl16_word:
  "(ucast (ucast (n::16 word) :: 8 word) OR push_bit 8 (ucast (ucast (drop_bit 8 n) :: 8 word)) :: 32 word)
     = ucast n"
  by (rule bit_word_eqI) (auto simp: bit_simps dest: bit_imp_le_length)

lemma byte_at_drop: "byte_at (drop k xs) i = byte_at xs (k + i)"
  by (auto simp add: byte_at_def)

lemma io_buf_advance: "io_buf (io_advance s n) = drop n (io_buf s)"
  by (simp add: io_advance_def)

lemma avio_r8_value: "fst (avio_r8 s) = byte_at (io_buf s) 0"
  by (cases "io_buf s") (simp_all add: avio_r8_def byte_at_def)

lemma avio_rl16_value:
  "fst (avio_rl16 s) = ucast (byte_at (io_buf s) 0) OR push_bit 8 (ucast (byte_at (io_buf s) 1))"
  by (simp add: avio_rl16_def Let_def split_def avio_r8_value avio_r8_state io_buf_advance
      byte_at_drop)

lemma avio_rl32_value:
  "fst (avio_rl32 s) =
     (ucast (byte_at (io_buf s) 0) OR push_bit 8 (ucast (byte_at (io_buf s) 1))) OR
     push_bit 16 (ucast (byte_at (io_buf s) 2) OR push_bit 8 (ucast (byte_at (io_buf s) 3)))"
  unfolding avio_rl32_def Let_def split_def fst_conv avio_rl16_value avio_rl16_state
    io_buf_advance byte_at_drop
  by simp

lemma avio_rl64_value:
  "fst (avio_rl64 s) =
     ucast ((ucast (byte_at (io_buf s) 0) OR push_bit 8 (ucast (byte_at (io_buf s) 1))) OR
       push_bit 16 (ucast (byte_at (io_buf s) 2) OR push_bit 8 (ucast (byte_at (io_buf s) 3)))
          :: 32 word) OR
     push_bit 32 (ucast ((ucast (byte_at (io_buf s) 4) OR push_bit 8 (ucast (byte_at (io_buf s) 5))) OR
       push_bit 16 (ucast (byte_at (io_buf s) 6) OR push_bit 8 (ucast (byte_at (io_buf s) 7)))
          :: 32 word))"
  unfolding avio_rl64_def Let_def split_def fst_conv avio_rl32_value avio_rl32_state
    io_buf_advance byte_at_drop
  by simp

lemma byte_at_le_bytes64:
  "byte_at (le_bytes64 w @ rest) 0 = ucast w"
  "byte_at (le_bytes64 w @ rest) 1 = ucast (drop_bit 8 w)"
  "byte_at (le_bytes64 w @ rest) 2 = ucast (drop_bit 16 w)"
  "byte_at (le_bytes64 w @ rest) 3 = ucast (drop_bit 24 w)"
  "byte_at (le_bytes64 w @ rest) 4 = ucast (drop_bit 32 w)"
  "byte_at (le_bytes64 w @ rest) 5 = ucast (drop_bit 40 w)"
  "byte_at (le_bytes64 w @ rest) 6 = ucast (drop_bit 48 w)"
  "byte_at (le_bytes64 w @ rest) 7 = ucast (drop_bit 56 w)"
  by (simp_all add: le_bytes64_def byte_at_def)

lemma byte_at_le_bytes16:
  "byte_at (le_bytes16 n @ rest) 0 = ucast n"
  "byte_at (le_bytes16 n @ rest) 1 = ucast (drop_bit 8 n)"
  by (simp_all add: le_bytes16_def byte_at_def)

lemma avio_rl16_wire:
  assumes "io_buf s = le_bytes16 n @ rest"
  shows "avio_rl16 s = (ucast n, s\<lparr>io_buf := rest, io_pos := io_pos s + 2\<rparr>)"
proof -
  have v: "fst (avio_rl16 s) = ucast n"
    unfolding avio_rl16_value assms byte_at_le_bytes16 by (rule rl16_word)
  have "length (le_bytes16 n) = 2" by (simp add: le_bytes16_def)
  then have st: "snd (avio_rl16 s) = s\<lparr>io_buf := rest, io_pos := io_pos s + 2\<rparr>"
    using io_advance_append [OF assms] by (simp add: avio_rl16_state)
  show ?thesis using v st by (simp add: prod_eq_iff)
qed

lemma avio_rl64_wire:
  assumes "io_buf s = le_bytes64 w @ rest"
  shows "avio_rl64 s = (w, s\<lparr>io_buf := rest, io_pos := io_pos s + 8\<rparr>)"
proof -
  have v: "fst (avio_rl64 s) = w"
    unfolding avio_rl64_value assms byte_at_le_bytes64 by (rule rl64_word)
  have "length (le_bytes64 w) = 8" by (simp add: le_bytes64_def)
  then have st: "snd (avio_rl64 s) = s\<lparr>io_buf := rest, io_pos := io_pos s + 8\<rparr>"
    using io_advance_append [OF assms] by (simp add: avio_rl64_state)
  show ?thesis using v st by (simp add: prod_eq_iff)
qed

lemma ucast16_uint: "uint (ucast (n :: 16 word) :: 32 word) = uint n"
  by (simp add: uint_up_ucast is_up)

lemma ucast16_eq_0: "(ucast (n :: 16 word) :: 32 word) = 0 \<longleftrightarrow> n = 0"
  by (metis ucast16_uint uint_0_iff)

lemma cluster_size_wire: "sint ((ucast (n :: 16 word) :: 32 word) * RCWT_BLOCK_SIZE) = 3 * int (unat n)"
proof -
  have "uint (ucast n :: 32 word) < 65536"
    using uint_lt2p [of n] by (simp add: ucast16_uint)
  then have "sint ((ucast n :: 32 word) * 3) = 3 * uint (ucast n :: 32 word)" by (rule mul3_sint)
  then show ?thesis by (simp add: RCWT_BLOCK_SIZE_def ucast16_uint)
qed

lemma rcwt_read_cluster_wire:
  assumes buf: "io_buf (pb avf) = wire_cluster c @ rest"
      and wf: "cluster_wf c"
      and nz: "c_block_count c \<noteq> 0"
      and m1: "mem_ok avf (nb_allocs avf)" and m2: "mem_ok avf (Suc (nb_allocs avf))"
  shows "rcwt_read_cluster avf =
    (Inr (),
     avf\<lparr>pb := (pb avf)\<lparr>io_buf := rest,
                         io_pos := io_pos (pb avf) + 10 + length (c_payload c)\<rparr>,
         nb_allocs := nb_allocs avf + 2,
         q := q avf @ [\<lparr>pkt_data = c_payload c, pkt_pts = c_pts c,
                         pkt_pos = int (io_pos (pb avf) + 10 + length (c_payload c))\<rparr>]\<rparr>)"
proof -
  let ?n = "c_block_count c"
  let ?len = "length (c_payload c)"
  let ?pb1 = "(pb avf)\<lparr>io_buf := le_bytes16 ?n @ c_payload c @ rest, io_pos := io_pos (pb avf) + 8\<rparr>"
  let ?pb2 = "(pb avf)\<lparr>io_buf := c_payload c @ rest, io_pos := io_pos (pb avf) + 10\<rparr>"
  let ?pb3 = "(pb avf)\<lparr>io_buf := rest, io_pos := io_pos (pb avf) + 10 + ?len\<rparr>"
  have r1: "avio_rl64 (pb avf) = (c_pts c, ?pb1)"
    using avio_rl64_wire [of "pb avf" "c_pts c" "le_bytes16 ?n @ c_payload c @ rest"] buf
    by (simp add: wire_cluster_def)
  have r2: "avio_rl16 ?pb1 = (ucast ?n, ?pb2)"
    using avio_rl16_wire [of ?pb1 ?n "c_payload c @ rest"] by simp
  have len: "?len = 3 * unat ?n" using wf by (simp add: cluster_wf_def)
  have sz: "sint ((ucast ?n :: 32 word) * RCWT_BLOCK_SIZE) = int ?len"
    by (simp add: cluster_size_wire len)
  have pos: "0 < ?len" using nz len by (simp add: unat_gt_0)
  have r3: "avio_read ?pb2 ?len = (int ?len, c_payload c, ?pb3)"
    using avio_read_append [of ?pb2 "c_payload c" rest ?len] pos by (simp add: add.assoc)
  show ?thesis
    unfolding rcwt_read_cluster_def r1
    using nz m1 m2
    by (simp add: Let_def r2 ucast16_eq_0 sz av_calloc_def mem_request_def r3
        ff_subtitles_queue_insert_def avio_tell_def)
qed

lemma rcwt_read_cluster_empty:
  assumes buf: "io_buf (pb avf) = le_bytes64 pts @ le_bytes16 0 @ rest"
  shows "rcwt_read_cluster avf =
    (Inr (), avf\<lparr>pb := (pb avf)\<lparr>io_buf := rest, io_pos := io_pos (pb avf) + 10\<rparr>\<rparr>)"
proof -
  let ?pb1 = "(pb avf)\<lparr>io_buf := le_bytes16 0 @ rest, io_pos := io_pos (pb avf) + 8\<rparr>"
  let ?pb2 = "(pb avf)\<lparr>io_buf := rest, io_pos := io_pos (pb avf) + 10\<rparr>"
  have r1: "avio_rl64 (pb avf) = (pts, ?pb1)"
    using avio_rl64_wire [of "pb avf" pts "le_bytes16 0 @ rest"] buf by simp
  have r2: "avio_rl16 ?pb1 = (0, ?pb2)"
    using avio_rl16_wire [of ?pb1 0 rest] by simp
  show ?thesis
    unfolding rcwt_read_cluster_def r1 by (simp add: Let_def r2)
qed

lemma length_wire_cluster: "length (wire_cluster c) = 10 + length (c_payload c)"
  by (simp add: wire_cluster_def le_bytes64_def le_bytes16_def)

lemma rcwt_demux_step:
  assumes "\<not> eof_reached (pb avf)" and "rcwt_read_cluster avf = (Inr (), avf')"
  shows "rcwt_demux avf = rcwt_demux avf'"
  using assms by (subst rcwt_demux.simps) (simp add: avio_feof_def)

lemma rcwt_demux_clusters:
  assumes "\<forall>c \<in> set cs. cluster_wf c" and "\<forall>k. mem_ok avf k"
    and "pb avf = \<lparr>io_buf = wire_clusters cs @ rest, io_pos = p, eof_reached = False\<rparr>"
  shows "rcwt_demux avf =
    rcwt_demux (avf\<lparr>pb := \<lparr>io_buf = rest, io_pos = p + length (wire_clusters cs),
                             eof_reached = False\<rparr>,
                     nb_allocs := nb_allocs avf + 2 * length (filter (\<lambda>c. c_block_count c \<noteq> 0) cs),
                     q := q avf @ cluster_packets p cs\<rparr>)"
  using assms
proof (induction cs arbitrary: avf p)
  case Nil
  have e: "pb avf = \<lparr>io_buf = rest, io_pos = p, eof_reached = False\<rparr>"
    using Nil.prems(3) by (simp add: wire_clusters_def)
  show ?case by (simp add: wire_clusters_def e [symmetric])
next
  case (Cons c cs)
  let ?len = "length (c_payload c)"
  have wf: "cluster_wf c" using Cons.prems(1) by simp
  have buf: "io_buf (pb avf) = wire_cluster c @ (wire_clusters cs @ rest)"
    using Cons.prems(3) by (simp add: wire_clusters_def)
  have neof: "\<not> eof_reached (pb avf)" using Cons.prems(3) by simp
  have pos: "io_pos (pb avf) = p" using Cons.prems(3) by simp
  show ?case
  proof (cases "c_block_count c = 0")
    case True
    then have pl: "c_payload c = []" using wf by (simp add: cluster_wf_def)
    let ?avf' = "avf\<lparr>pb := \<lparr>io_buf = wire_clusters cs @ rest, io_pos = p + 10,
                               eof_reached = False\<rparr>\<rparr>"
    have "io_buf (pb avf) = le_bytes64 (c_pts c) @ le_bytes16 0 @ (wire_clusters cs @ rest)"
      using buf True pl by (simp add: wire_cluster_def)
    then have "rcwt_read_cluster avf = (Inr (), ?avf')"
      using rcwt_read_cluster_empty [of avf "c_pts c" "wire_clusters cs @ rest"] Cons.prems(3)
      by simp
    then have "rcwt_demux avf = rcwt_demux ?avf'" using neof by (rule rcwt_demux_step [rotated])
    also have "\<dots> = rcwt_demux (?avf'\<lparr>pb := \<lparr>io_buf = rest, io_pos = p + 10 + length (wire_clusters cs),
                             eof_reached = False\<rparr>,
                     nb_allocs := nb_allocs ?avf' + 2 * length (filter (\<lambda>c. c_block_count c \<noteq> 0) cs),
                     q := q ?avf' @ cluster_packets (p + 10) cs\<rparr>)"
      using Cons.prems(1,2) by (intro Cons.IH) simp_all
    finally show ?thesis
      using True pl by (simp add: wire_clusters_def length_wire_cluster add.assoc)
  next
    case False
    let ?avf' = "avf\<lparr>pb := \<lparr>io_buf = wire_clusters cs @ rest, io_pos = p + 10 + ?len,
                               eof_reached = False\<rparr>,
                      nb_allocs := nb_allocs avf + 2,
                      q := q avf @ [\<lparr>pkt_data = c_payload c, pkt_pts = c_pts c,
                                      pkt_pos = int (p + 10 + ?len)\<rparr>]\<rparr>"
    have "rcwt_read_cluster avf = (Inr (), ?avf')"
      using rcwt_read_cluster_wire [OF buf wf False] Cons.prems(2,3) by simp
    then have "rcwt_demux avf = rcwt_demux ?avf'" using neof by (rule rcwt_demux_step [rotated])
    also have "\<dots> = rcwt_demux (?avf'\<lparr>pb := \<lparr>io_buf = rest, io_pos = p + 10 + ?len + length (wire_clusters cs),
                             eof_reached = False\<rparr>,
                     nb_allocs := nb_allocs ?avf' + 2 * length (filter (\<lambda>c. c_block_count c \<noteq> 0) cs),
                     q := q ?avf' @ cluster_packets (p + 10 + ?len) cs\<rparr>)"
      using Cons.prems(1,2) by (intro Cons.IH) simp_all
    finally show ?thesis
      using False by (simp add: wire_clusters_def length_wire_cluster add.assoc)
  qed
qed

lemma rcwt_read_cluster_short_count:
  assumes "length (io_buf (pb avf)) < 10"
  shows "fst (avio_rl16 (snd (avio_rl64 (pb avf)))) = ucast (byte_at (io_buf (pb avf)) 8)"
proof -
  have "byte_at (io_buf (pb avf)) 9 = 0" using assms by (simp add: byte_at_def)
  then show ?thesis
    by (simp add: avio_rl16_value avio_rl64_state io_buf_advance byte_at_drop)
qed

lemma rcwt_read_cluster_short_state:
  assumes "length (io_buf (pb avf)) < 10"
  shows "snd (avio_rl16 (snd (avio_rl64 (pb avf)))) =
           (pb avf)\<lparr>io_buf := [], io_pos := io_pos (pb avf) + length (io_buf (pb avf)),
                     eof_reached := True\<rparr>"
proof -
  have "snd (avio_rl16 (snd (avio_rl64 (pb avf)))) = io_advance (io_advance (pb avf) 8) 2"
    by (simp add: avio_rl16_state avio_rl64_state)
  also have "\<dots> = io_advance (pb avf) (8 + 2)" by (rule io_advance_add)
  finally show ?thesis using assms by (simp add: io_advance_def)
qed

lemma ucast8_uint: "uint (ucast (b :: 8 word) :: 32 word) = uint b"
  by (simp add: uint_up_ucast is_up)

lemma ucast8_eq_0: "(ucast (b :: 8 word) :: 32 word) = 0 \<longleftrightarrow> b = 0"
  by (metis ucast8_uint uint_0_iff)

lemma rcwt_read_cluster_short_skip:
  assumes "length (io_buf (pb avf)) < 10" and "byte_at (io_buf (pb avf)) 8 = 0"
  shows "rcwt_read_cluster avf =
    (Inr (), avf\<lparr>pb := (pb avf)\<lparr>io_buf := [],
                     io_pos := io_pos (pb avf) + length (io_buf (pb avf)),
                     eof_reached := True\<rparr>\<rparr>)"
proof -
  obtain v1 s1 where r1: "avio_rl64 (pb avf) = (v1, s1)" by (cases "avio_rl64 (pb avf)")
  obtain v2 s2 where r2: "avio_rl16 s1 = (v2, s2)" by (cases "avio_rl16 s1")
  have v2: "v2 = 0"
    using rcwt_read_cluster_short_count [OF assms(1)] assms(2) by (simp add: r1 r2)
  have s2: "s2 = (pb avf)\<lparr>io_buf := [], io_pos := io_pos (pb avf) + length (io_buf (pb avf)),
                     eof_reached := True\<rparr>"
    using rcwt_read_cluster_short_state [OF assms(1)] by (simp add: r1 r2)
  show ?thesis
    by (simp add: rcwt_read_cluster_def r1 r2 v2 s2)
qed

lemma rcwt_read_cluster_short_fail:
  assumes "length (io_buf (pb avf)) < 10" and "byte_at (io_buf (pb avf)) 8 \<noteq> 0"
    and "mem_ok avf (nb_allocs avf)"
  shows "rcwt_read_cluster avf =
    (Inl AVERROR_INVALIDDATA,
     av_log (avf\<lparr>pb := (pb avf)\<lparr>io_buf := [],
                     io_pos := io_pos (pb avf) + length (io_buf (pb avf)),
                     eof_reached := True\<rparr>,
                 nb_allocs := nb_allocs avf + 1\<rparr>)
       msg_cluster_size
       [3 * uint (byte_at (io_buf (pb avf)) 8), AVERROR_EOF,
        int (io_pos (pb avf) + length (io_buf (pb avf)))])"
proof -
  let ?b = "byte_at (io_buf (pb avf)) 8"
  let ?pb2 = "(pb avf)\<lparr>io_buf := [], io_pos := io_pos (pb avf) + length (io_buf (pb avf)),
                     eof_reached := True\<rparr>"
  obtain v1 s1 where r1: "avio_rl64 (pb avf) = (v1, s1)" by (cases "avio_rl64 (pb avf)")
  obtain v2 s2 where r2: "avio_rl16 s1 = (v2, s2)" by (cases "avio_rl16 s1")
  have v2: "v2 = ucast ?b"
    using rcwt_read_cluster_short_count [OF assms(1)] by (simp add: r1 r2)
  have s2: "s2 = ?pb2"
    using rcwt_read_cluster_short_state [OF assms(1)] by (simp add: r1 r2)
  have nz: "(ucast ?b :: 32 word) \<noteq> 0" using assms(2) by (simp add: ucast8_eq_0)
  have u: "uint (ucast ?b :: 32 word) = uint ?b" by (rule ucast8_uint)
  have "uint ?b < 256" using uint_lt2p [of ?b] by simp
  then have "uint (ucast ?b :: 32 word) < 65536" by (simp add: u)
  then have "sint ((ucast ?b :: 32 word) * 3) = 3 * uint (ucast ?b :: 32 word)" by (rule mul3_sint)
  then have sz: "sint ((ucast ?b :: 32 word) * RCWT_BLOCK_SIZE) = 3 * uint ?b"
    by (simp add: RCWT_BLOCK_SIZE_def u)
  have rd: "avio_read ?pb2 k = (AVERROR_EOF, [], ?pb2)" for k
    by (simp add: avio_read_def)
  have ne: "AVERROR_EOF \<noteq> 3 * uint ?b"
    unfolding AVERROR_EOF_def using uint_ge_0 [of ?b] by linarith
  show ?thesis
    using nz assms(3) ne
    by (simp add: rcwt_read_cluster_def r1 r2 v2 s2 Let_def av_calloc_def mem_request_def sz rd
        av_log_def avio_tell_def)
qed

lemma rcwt_read_cluster_truncated:
  assumes buf: "io_buf (pb avf) = le_bytes64 pts @ le_bytes16 n @ tail"
      and nz: "n \<noteq> 0"
      and short: "length tail < 3 * unat n"
      and m1: "mem_ok avf (nb_allocs avf)"
  shows "rcwt_read_cluster avf =
    (Inl AVERROR_INVALIDDATA,
     av_log (avf\<lparr>pb := (pb avf)\<lparr>io_buf := [],
                     io_pos := io_pos (pb avf) + 10 + length tail,
                     eof_reached := True\<rparr>,
                 nb_allocs := nb_allocs avf + 1\<rparr>)
       msg_cluster_size
       [3 * int (unat n), if tail = [] then AVERROR_EOF else int (length tail),
        int (io_pos (pb avf) + 10 + length tail)])"
proof -
  let ?pb1 = "(pb avf)\<lparr>io_buf := le_bytes16 n @ tail, io_pos := io_pos (pb avf) + 8\<rparr>"
  let ?pb2 = "(pb avf)\<lparr>io_buf := tail, io_pos := io_pos (pb avf) + 10\<rparr>"
  let ?pb3 = "(pb avf)\<lparr>io_buf := [], io_pos := io_pos (pb avf) + 10 + length tail,
                         eof_reached := True\<rparr>"
  have r1: "avio_rl64 (pb avf) = (pts, ?pb1)"
    using avio_rl64_wire [of "pb avf" pts "le_bytes16 n @ tail"] buf by simp
  have r2: "avio_rl16 ?pb1 = (ucast n, ?pb2)"
    using avio_rl16_wire [of ?pb1 n tail] by simp
  have sz: "sint ((ucast n :: 32 word) * RCWT_BLOCK_SIZE) = 3 * uint n"
    using cluster_size_wire [of n] by simp
  have k: "nat (3 * uint n) = 3 * unat n" by (simp add: nat_mult_distrib)
  have r3: "avio_read ?pb2 (nat (3 * uint n)) =
      (if tail = [] then AVERROR_EOF else int (length tail), tail, ?pb3)"
    unfolding k using short by (simp add: avio_read_def Let_def add.assoc)
  have lt: "int (length tail) < 3 * uint n" using short k by linarith
  have ne: "(if tail = [] then AVERROR_EOF else int (length tail)) \<noteq> 3 * uint n"
    using lt by (cases "tail = []") (simp_all add: AVERROR_EOF_def)
  show ?thesis
    unfolding rcwt_read_cluster_def r1
    using nz m1 ne
    by (simp add: Let_def r2 ucast16_eq_0 sz av_calloc_def mem_request_def r3
        av_log_def avio_tell_def)
qed

lemma rcwt_demux_fail:
  assumes "\<not> eof_reached (pb avf)" and "rcwt_read_cluster avf = (Inl e, avf')"
  shows "rcwt_demux avf = (Inl e, avf')"
  using assms by (subst rcwt_demux.simps) (simp add: avio_feof_def)

lemma rcwt_demux_eof:
  assumes "eof_reached (pb avf)"
  shows "rcwt_demux avf = (Inr (), avf)"
  using assms by (subst rcwt_demux.simps) (simp add: avio_feof_def)

lemma rcwt_demux_short_skip:
  assumes "pb avf = \<lparr>io_buf = t, io_pos = p, eof_reached = False\<rparr>"
    and "length t < 10" and "byte_at t 8 = 0"
  shows "rcwt_demux avf =
    (Inr (), avf\<lparr>pb := \<lparr>io_buf = [], io_pos = p + length t, eof_reached = True\<rparr>\<rparr>)"
proof -
  let ?avf' = "avf\<lparr>pb := \<lparr>io_buf = [], io_pos = p + length t, eof_reached = True\<rparr>\<rparr>"
  have "rcwt_read_cluster avf = (Inr (), ?avf')"
    using rcwt_read_cluster_short_skip [of avf] assms by simp
  then have "rcwt_demux avf = rcwt_demux ?avf'"
    using assms(1) by (intro rcwt_demux_step) simp_all
  also have "\<dots> = (Inr (), ?avf')" by (rule rcwt_demux_eof) simp
  finally show ?thesis .
qed

lemma rcwt_validate_header_ok:
  assumes "fst (rcwt_validate_header avf) = Inr ()"
  shows "snd (rcwt_validate_header avf) = avf\<lparr>pb := io_advance (pb avf) 11\<rparr>"
proof -
  have "snd (rcwt_validate_header avf) = avf\<lparr>pb := snd (snd (avio_read (pb avf) 11))\<rparr>"
    using assms
    by (auto simp add: rcwt_validate_header_def Let_def split_def RCWT_HEADER_SIZE_def
        split: if_splits)
  then show ?thesis by (simp add: avio_read_state)
qed

lemma rcwt_read_header_valid:
  assumes "fst (rcwt_validate_header avf) = Inr ()" and "mem_ok avf (nb_allocs avf)"
  shows "rcwt_read_header avf =
    (case rcwt_demux (after_setup avf) of
       (Inl e, avf4) \<Rightarrow> (Inl e, avf4)
     | (Inr u, avf4) \<Rightarrow> (Inr (), ff_subtitles_queue_finalize avf4))"
proof -
  obtain r avf1 where v: "rcwt_validate_header avf = (r, avf1)"
    by (cases "rcwt_validate_header avf")
  have r: "r = Inr ()" using assms(1) v by simp
  have a1: "avf1 = avf\<lparr>pb := io_advance (pb avf) 11\<rparr>"
    using rcwt_validate_header_ok [OF assms(1)] v by simp
  show ?thesis
    using assms(2)
    by (simp add: rcwt_read_header_def v r a1 avformat_new_stream_def mem_request_def
        avpriv_set_pts_info_def after_setup_def rcwt_stream_def Let_def)
qed

lemma after_setup_open:
  assumes "length h = 11"
  shows "after_setup (open_input mem (h @ rest)) =
    \<lparr>pb = \<lparr>io_buf = rest, io_pos = 11, eof_reached = False\<rparr>,
     streams = [rcwt_stream], q = [], q_finalized = False, logged = [],
     mem_ok = mem, nb_allocs = 1\<rparr>"
  using assms by (simp add: after_setup_def open_input_def io_advance_def)

lemma cluster_packets_nonzero:
  assumes "\<forall>c \<in> set cs. c_block_count c \<noteq> 0"
  shows "length (cluster_packets p cs) = length cs \<and>
         map pkt_pts (cluster_packets p cs) = map c_pts cs \<and>
         map pkt_data (cluster_packets p cs) = map c_payload cs"
  using assms by (induction cs arbitrary: p) simp_all

lemma byte_at_8: "length t < 10 \<Longrightarrow> byte_at t 8 = 0 \<longleftrightarrow> length t \<le> 8 \<or> t ! 8 = 0"
  by (auto simp add: byte_at_def)

lemma rcwt_demux_stream_ok:
  assumes "\<forall>c \<in> set cs. cluster_wf c" and "\<forall>k. mem_ok avf k"
    and "pb avf = \<lparr>io_buf = wire_clusters cs @ t, io_pos = p, eof_reached = False\<rparr>"
    and "length t < 10" and "byte_at t 8 = 0"
  shows "fst (rcwt_demux avf) = Inr () \<and>
         q (snd (rcwt_demux avf)) = q avf @ cluster_packets p cs \<and>
         logged (snd (rcwt_demux avf)) = logged avf \<and>
         streams (snd (rcwt_demux avf)) = streams avf \<and>
         io_buf (pb (snd (rcwt_demux avf))) = []"
proof -
  let ?avf1 = "avf\<lparr>pb := \<lparr>io_buf = t, io_pos = p + length (wire_clusters cs),
                             eof_reached = False\<rparr>,
                     nb_allocs := nb_allocs avf + 2 * length (filter (\<lambda>c. c_block_count c \<noteq> 0) cs),
                     q := q avf @ cluster_packets p cs\<rparr>"
  have "rcwt_demux avf = rcwt_demux ?avf1"
    using assms(1,2,3) by (rule rcwt_demux_clusters)
  also have "\<dots> = (Inr (), ?avf1\<lparr>pb := \<lparr>io_buf = [], io_pos = p + length (wire_clusters cs) + length t, eof_reached = True\<rparr>\<rparr>)"
    using assms(4,5) by (intro rcwt_demux_short_skip) simp_all
  finally show ?thesis by simp
qed

lemma rcwt_demux_stream_fail:
  assumes "\<forall>c \<in> set cs. cluster_wf c" and "\<forall>k. mem_ok avf k"
    and "pb avf = \<lparr>io_buf = wire_clusters cs @ t, io_pos = p, eof_reached = False\<rparr>"
    and "\<And>a. io_buf (pb a) = t \<Longrightarrow> io_pos (pb a) = p + length (wire_clusters cs) \<Longrightarrow>
           mem_ok a (nb_allocs a) \<Longrightarrow>
           fst (rcwt_read_cluster a) = Inl e \<and>
           q (snd (rcwt_read_cluster a)) = q a \<and>
           q_finalized (snd (rcwt_read_cluster a)) = q_finalized a \<and>
           logged (snd (rcwt_read_cluster a)) = logged a @ [m]"
  shows "fst (rcwt_demux avf) = Inl e \<and>
         q (snd (rcwt_demux avf)) = q avf @ cluster_packets p cs \<and>
         q_finalized (snd (rcwt_demux avf)) = q_finalized avf \<and>
         logged (snd (rcwt_demux avf)) = logged avf @ [m]"
proof -
  let ?avf1 = "avf\<lparr>pb := \<lparr>io_buf = t, io_pos = p + length (wire_clusters cs),
                             eof_reached = False\<rparr>,
                     nb_allocs := nb_allocs avf + 2 * length (filter (\<lambda>c. c_block_count c \<noteq> 0) cs),
                     q := q avf @ cluster_packets p cs\<rparr>"
  have d: "rcwt_demux avf = rcwt_demux ?avf1"
    using assms(1,2,3) by (rule rcwt_demux_clusters)
  have c: "fst (rcwt_read_cluster ?avf1) = Inl e \<and>
           q (snd (rcwt_read_cluster ?avf1)) = q ?avf1 \<and>
           q_finalized (snd (rcwt_read_cluster ?avf1)) = q_finalized ?avf1 \<and>
           logged (snd (rcwt_read_cluster ?avf1)) = logged ?avf1 @ [m]"
    using assms(2) by (intro assms(4)) simp_all
  obtain r a where ra: "rcwt_read_cluster ?avf1 = (r, a)" by (cases "rcwt_read_cluster ?avf1")
  with c have r: "r = Inl e" by simp
  have "rcwt_demux ?avf1 = (Inl e, a)"
    using ra r by (intro rcwt_demux_fail) simp_all
  then show ?thesis using c ra d by simp
qed

lemma rcwt_read_header_demux:
  assumes "fst (rcwt_validate_header avf) = Inr ()" and "mem_ok avf (nb_allocs avf)"
  shows "fst (rcwt_read_header avf) = fst (rcwt_demux (after_setup avf)) \<and>
         q (snd (rcwt_read_header avf)) = q (snd (rcwt_demux (after_setup avf))) \<and>
         logged (snd (rcwt_read_header avf)) = logged (snd (rcwt_demux (after_setup avf))) \<and>
         streams (snd (rcwt_read_header avf)) = streams (snd (rcwt_demux (after_setup avf))) \<and>
         q_finalized (snd (rcwt_read_header avf)) =
           (fst (rcwt_demux (after_setup avf)) = Inr () \<or>
            q_finalized (snd (rcwt_demux (after_setup avf))))"
proof -
  obtain r a where d: "rcwt_demux (after_setup avf) = (r, a)"
    by (cases "rcwt_demux (after_setup avf)")
  show ?thesis
    unfolding rcwt_read_header_valid [OF assms] d
    by (cases r) (simp_all add: ff_subtitles_queue_finalize_def)
qed

text \<open>C1. For an input made of a header that validates and the records of N clusters,
  each with a nonzero block count and its whole payload, \<^verbatim>\<open>rcwt_read_header\<close> succeeds
  when memory does not run out, and the packets it has handed to the queue are exactly
  N, in the order of the clusters in the stream, each with the \<open>pts\<close> and the payload
  bytes of its cluster.\<close>

theorem rcwt_read_header_round_trip:
  assumes len: "length h = 11"
    and hdr: "fst (rcwt_validate_header (open_input mem (h @ wire_clusters cs))) = Inr ()"
    and cl: "\<forall>c \<in> set cs. cluster_wf c \<and> c_block_count c \<noteq> 0"
    and mem: "\<forall>k. mem k"
  shows "fst (rcwt_read_header (open_input mem (h @ wire_clusters cs))) = Inr () \<and>
         length (q (snd (rcwt_read_header (open_input mem (h @ wire_clusters cs))))) = length cs \<and>
         map pkt_pts (q (snd (rcwt_read_header (open_input mem (h @ wire_clusters cs))))) =
           map c_pts cs \<and>
         map pkt_data (q (snd (rcwt_read_header (open_input mem (h @ wire_clusters cs))))) =
           map c_payload cs"
proof -
  let ?avf = "open_input mem (h @ wire_clusters cs)"
  have m0: "mem_ok ?avf (nb_allocs ?avf)" using mem by (simp add: open_input_def)
  note rh = rcwt_read_header_demux [OF hdr m0]
  have su: "pb (after_setup ?avf) =
      \<lparr>io_buf = wire_clusters cs @ [], io_pos = 11, eof_reached = False\<rparr>"
    by (simp add: after_setup_open [OF len])
  have "fst (rcwt_demux (after_setup ?avf)) = Inr () \<and>
        q (snd (rcwt_demux (after_setup ?avf))) = q (after_setup ?avf) @ cluster_packets 11 cs"
    using rcwt_demux_stream_ok [of cs "after_setup ?avf" "[]" 11] cl mem su
    by (simp add: after_setup_open [OF len] byte_at_def)
  then have "fst (rcwt_read_header ?avf) = Inr () \<and>
        q (snd (rcwt_read_header ?avf)) = cluster_packets 11 cs"
    using rh by (simp add: after_setup_open [OF len])
  then show ?thesis using cluster_packets_nonzero [of cs 11] cl by simp
qed

theorem rcwt_read_header_round_trip_witness:
  "fst (rcwt_read_header (open_input (\<lambda>k. True)
     ([0xCC, 0xCC, 0xED, 0xCC, 0, 0, 0, 1, 0, 0, 0] @
      wire_clusters [\<lparr>c_pts = 1500, c_block_count = 2, c_payload = [1, 2, 3, 4, 5, 6]\<rparr>,
                     \<lparr>c_pts = 1000, c_block_count = 1, c_payload = [7, 8, 9]\<rparr>]))) = Inr () \<and>
   map pkt_pts (q (snd (rcwt_read_header (open_input (\<lambda>k. True)
     ([0xCC, 0xCC, 0xED, 0xCC, 0, 0, 0, 1, 0, 0, 0] @
      wire_clusters [\<lparr>c_pts = 1500, c_block_count = 2, c_payload = [1, 2, 3, 4, 5, 6]\<rparr>,
                     \<lparr>c_pts = 1000, c_block_count = 1, c_payload = [7, 8, 9]\<rparr>]))))) =
     [1500, 1000] \<and>
   map pkt_data (q (snd (rcwt_read_header (open_input (\<lambda>k. True)
     ([0xCC, 0xCC, 0xED, 0xCC, 0, 0, 0, 1, 0, 0, 0] @
      wire_clusters [\<lparr>c_pts = 1500, c_block_count = 2, c_payload = [1, 2, 3, 4, 5, 6]\<rparr>,
                     \<lparr>c_pts = 1000, c_block_count = 1, c_payload = [7, 8, 9]\<rparr>]))))) =
     [[1, 2, 3, 4, 5, 6], [7, 8, 9]]"
proof -
  let ?h = "[0xCC, 0xCC, 0xED, 0xCC, 0, 0, 0, 1, 0, 0, 0] :: uint8_t list"
  let ?cs = "[\<lparr>c_pts = 1500, c_block_count = 2, c_payload = [1, 2, 3, 4, 5, 6]\<rparr>,
              \<lparr>c_pts = 1000, c_block_count = 1, c_payload = [7, 8, 9]\<rparr>]"
  have h1: "length ?h = 11" by simp
  have h2: "fst (rcwt_validate_header (open_input (\<lambda>k. True) (?h @ wire_clusters ?cs))) = Inr ()"
    by code_simp
  have h3: "\<forall>c \<in> set ?cs. cluster_wf c \<and> c_block_count c \<noteq> 0"
    by (simp add: cluster_wf_def)
  have h4: "\<forall>k::nat. (\<lambda>k. True) k" by simp
  show ?thesis using rcwt_read_header_round_trip [OF h1 h2 h3 h4] by simp
qed

text \<open>C2. When, behind a valid header and any number of whole cluster records, a cluster
  declares \<open>n > 0\<close> blocks and fewer than \<open>3 * n\<close> bytes are left in the stream (whatever
  those bytes are, records of valid clusters included), \<^verbatim>\<open>rcwt_read_header\<close> fails with
  \<^verbatim>\<open>AVERROR_INVALIDDATA\<close> and the invalid-size message (expected size, bytes read, position);
  the queue holds the packets of the whole clusters before and nothing else, and is not
  finalized. Memory is assumed not to run out.\<close>

theorem rcwt_read_header_truncated_cluster:
  assumes len: "length h = 11"
    and hdr: "fst (rcwt_validate_header (open_input mem
                (h @ wire_clusters cs @ le_bytes64 pts @ le_bytes16 n @ tail))) = Inr ()"
    and cl: "\<forall>c \<in> set cs. cluster_wf c"
    and nz: "n \<noteq> 0"
    and short: "length tail < 3 * unat n"
    and mem: "\<forall>k. mem k"
  shows "fst (rcwt_read_header (open_input mem
                (h @ wire_clusters cs @ le_bytes64 pts @ le_bytes16 n @ tail))) =
           Inl AVERROR_INVALIDDATA \<and>
         q (snd (rcwt_read_header (open_input mem
                (h @ wire_clusters cs @ le_bytes64 pts @ le_bytes16 n @ tail)))) =
           cluster_packets 11 cs \<and>
         logged (snd (rcwt_read_header (open_input mem
                (h @ wire_clusters cs @ le_bytes64 pts @ le_bytes16 n @ tail)))) =
           [(msg_cluster_size,
             [3 * int (unat n), if tail = [] then AVERROR_EOF else int (length tail),
              int (11 + length (wire_clusters cs) + 10 + length tail)])] \<and>
         \<not> q_finalized (snd (rcwt_read_header (open_input mem
                (h @ wire_clusters cs @ le_bytes64 pts @ le_bytes16 n @ tail))))"
proof -
  let ?t = "le_bytes64 pts @ le_bytes16 n @ tail"
  let ?avf = "open_input mem (h @ wire_clusters cs @ ?t)"
  let ?m = "(msg_cluster_size,
             [3 * int (unat n), if tail = [] then AVERROR_EOF else int (length tail),
              int (11 + length (wire_clusters cs) + 10 + length tail)])"
  have m0: "mem_ok ?avf (nb_allocs ?avf)" using mem by (simp add: open_input_def)
  note rh = rcwt_read_header_demux [OF hdr m0]
  have su: "pb (after_setup ?avf) =
      \<lparr>io_buf = wire_clusters cs @ ?t, io_pos = 11, eof_reached = False\<rparr>"
    by (simp add: after_setup_open [OF len])
  have mm: "\<forall>k. mem_ok (after_setup ?avf) k"
    using mem by (simp add: after_setup_open [OF len])
  have step: "fst (rcwt_read_cluster a) = Inl AVERROR_INVALIDDATA \<and>
           q (snd (rcwt_read_cluster a)) = q a \<and>
           q_finalized (snd (rcwt_read_cluster a)) = q_finalized a \<and>
           logged (snd (rcwt_read_cluster a)) = logged a @ [?m]"
    if "io_buf (pb a) = ?t" and "io_pos (pb a) = 11 + length (wire_clusters cs)"
      and "mem_ok a (nb_allocs a)" for a
    using rcwt_read_cluster_truncated [OF that(1) nz short that(3)] that(2)
    by (simp add: av_log_def add.assoc)
  have "fst (rcwt_demux (after_setup ?avf)) = Inl AVERROR_INVALIDDATA \<and>
         q (snd (rcwt_demux (after_setup ?avf))) = q (after_setup ?avf) @ cluster_packets 11 cs \<and>
         q_finalized (snd (rcwt_demux (after_setup ?avf))) = q_finalized (after_setup ?avf) \<and>
         logged (snd (rcwt_demux (after_setup ?avf))) = logged (after_setup ?avf) @ [?m]"
    using cl mm su step by (rule rcwt_demux_stream_fail)
  then show ?thesis using rh by (simp add: after_setup_open [OF len])
qed

theorem rcwt_read_header_truncated_cluster_witness:
  "fst (rcwt_read_header (open_input (\<lambda>k. True)
     ([0xCC, 0xCC, 0xED, 0xCC, 0, 0, 0, 1, 0, 0, 0] @
      wire_clusters [\<lparr>c_pts = 1500, c_block_count = 2, c_payload = [1, 2, 3, 4, 5, 6]\<rparr>] @
      le_bytes64 7 @ le_bytes16 5 @
      wire_cluster \<lparr>c_pts = 8, c_block_count = 1, c_payload = [7, 8, 9]\<rparr>))) =
     Inl AVERROR_INVALIDDATA \<and>
   q (snd (rcwt_read_header (open_input (\<lambda>k. True)
     ([0xCC, 0xCC, 0xED, 0xCC, 0, 0, 0, 1, 0, 0, 0] @
      wire_clusters [\<lparr>c_pts = 1500, c_block_count = 2, c_payload = [1, 2, 3, 4, 5, 6]\<rparr>] @
      le_bytes64 7 @ le_bytes16 5 @
      wire_cluster \<lparr>c_pts = 8, c_block_count = 1, c_payload = [7, 8, 9]\<rparr>)))) =
     [\<lparr>pkt_data = [1, 2, 3, 4, 5, 6], pkt_pts = 1500, pkt_pos = 27\<rparr>]"
proof -
  let ?h = "[0xCC, 0xCC, 0xED, 0xCC, 0, 0, 0, 1, 0, 0, 0] :: uint8_t list"
  let ?cs = "[\<lparr>c_pts = 1500, c_block_count = 2, c_payload = [1, 2, 3, 4, 5, 6]\<rparr>]"
  let ?tail = "wire_cluster \<lparr>c_pts = 8, c_block_count = 1, c_payload = [7, 8, 9]\<rparr>"
  have h1: "length ?h = 11" by simp
  have h2: "fst (rcwt_validate_header (open_input (\<lambda>k. True)
      (?h @ wire_clusters ?cs @ le_bytes64 7 @ le_bytes16 5 @ ?tail))) = Inr ()"
    by code_simp
  have h3: "\<forall>c \<in> set ?cs. cluster_wf c" by (simp add: cluster_wf_def)
  have h4: "(5 :: 16 word) \<noteq> 0" by simp
  have h5: "length ?tail < 3 * unat (5 :: 16 word)" by (simp add: length_wire_cluster)
  have h6: "\<forall>k::nat. (\<lambda>k. True) k" by simp
  show ?thesis using rcwt_read_header_truncated_cluster [OF h1 h2 h3 h4 h5 h6] by simp
qed

text \<open>C5. At a cluster record whose block count is 0, one run of the loop body ends
  without error, queues no packet and requests no memory: the context is as before with
  the record's 10 bytes consumed. The loop then goes on with the next record.\<close>

theorem rcwt_demux_empty_cluster:
  assumes "pb avf = \<lparr>io_buf = le_bytes64 pts @ le_bytes16 0 @ rest, io_pos = p,
                      eof_reached = False\<rparr>"
  shows "rcwt_read_cluster avf =
           (Inr (), avf\<lparr>pb := \<lparr>io_buf = rest, io_pos = p + 10, eof_reached = False\<rparr>\<rparr>) \<and>
         q (snd (rcwt_read_cluster avf)) = q avf \<and>
         nb_allocs (snd (rcwt_read_cluster avf)) = nb_allocs avf \<and>
         rcwt_demux avf =
           rcwt_demux (avf\<lparr>pb := \<lparr>io_buf = rest, io_pos = p + 10, eof_reached = False\<rparr>\<rparr>)"
proof -
  let ?avf' = "avf\<lparr>pb := \<lparr>io_buf = rest, io_pos = p + 10, eof_reached = False\<rparr>\<rparr>"
  have c: "rcwt_read_cluster avf = (Inr (), ?avf')"
    using rcwt_read_cluster_empty [of avf pts rest] assms by simp
  have d: "rcwt_demux avf = rcwt_demux ?avf'"
    using assms c by (intro rcwt_demux_step) simp_all
  show ?thesis using c d by simp
qed

theorem rcwt_demux_empty_cluster_witness:
  "fst (rcwt_read_cluster (open_input (\<lambda>k. True) (le_bytes64 5 @ le_bytes16 0 @ [9]))) = Inr () \<and>
   q (snd (rcwt_read_cluster (open_input (\<lambda>k. True) (le_bytes64 5 @ le_bytes16 0 @ [9])))) = [] \<and>
   nb_allocs (snd (rcwt_read_cluster (open_input (\<lambda>k. True) (le_bytes64 5 @ le_bytes16 0 @ [9]))))
     = 0 \<and>
   pb (snd (rcwt_read_cluster (open_input (\<lambda>k. True) (le_bytes64 5 @ le_bytes16 0 @ [9])))) =
     \<lparr>io_buf = [9], io_pos = 10, eof_reached = False\<rparr>"
  using rcwt_demux_empty_cluster
    [of "open_input (\<lambda>k. True) (le_bytes64 5 @ le_bytes16 0 @ [9])" 5 "[9]" 0]
  by (simp add: open_input_def)

text \<open>C10, as amended. When the stream ends inside the 10-byte prefix of a cluster record
  (1 to 9 bytes are left at a cluster boundary), the missing bytes read as zero. With 1
  to 8 bytes left, or 9 bytes left of which the last (the low byte of the block count) is
  0, the block count reads as 0, the partial record is skipped and the read succeeds with
  no packet for it. With 9 bytes left and a nonzero ninth byte, the block count reads as
  that byte, no payload is left, and the read fails with \<^verbatim>\<open>AVERROR_INVALIDDATA\<close>. Either
  way the queue holds the packets of the whole clusters before.\<close>

theorem rcwt_read_header_partial_prefix:
  assumes len: "length h = 11"
    and hdr: "fst (rcwt_validate_header (open_input mem (h @ wire_clusters cs @ t))) = Inr ()"
    and cl: "\<forall>c \<in> set cs. cluster_wf c"
    and mem: "\<forall>k. mem k"
    and t: "t \<noteq> []" "length t < 10"
  shows "fst (rcwt_read_header (open_input mem (h @ wire_clusters cs @ t))) =
           (if length t \<le> 8 \<or> t ! 8 = 0 then Inr () else Inl AVERROR_INVALIDDATA) \<and>
         q (snd (rcwt_read_header (open_input mem (h @ wire_clusters cs @ t)))) =
           cluster_packets 11 cs"
proof -
  let ?avf = "open_input mem (h @ wire_clusters cs @ t)"
  have m0: "mem_ok ?avf (nb_allocs ?avf)" using mem by (simp add: open_input_def)
  note rh = rcwt_read_header_demux [OF hdr m0]
  have su: "pb (after_setup ?avf) =
      \<lparr>io_buf = wire_clusters cs @ t, io_pos = 11, eof_reached = False\<rparr>"
    by (simp add: after_setup_open [OF len])
  have mm: "\<forall>k. mem_ok (after_setup ?avf) k"
    using mem by (simp add: after_setup_open [OF len])
  show ?thesis
  proof (cases "byte_at t 8 = 0")
    case True
    have "fst (rcwt_demux (after_setup ?avf)) = Inr () \<and>
        q (snd (rcwt_demux (after_setup ?avf))) = q (after_setup ?avf) @ cluster_packets 11 cs"
      using rcwt_demux_stream_ok [OF cl mm su t(2) True] by simp
    then show ?thesis
      using rh True byte_at_8 [OF t(2)] by (simp add: after_setup_open [OF len])
  next
    case False
    let ?m = "(msg_cluster_size,
       [3 * uint (byte_at t 8), AVERROR_EOF, int (11 + length (wire_clusters cs) + length t)])"
    have step: "fst (rcwt_read_cluster a) = Inl AVERROR_INVALIDDATA \<and>
           q (snd (rcwt_read_cluster a)) = q a \<and>
           q_finalized (snd (rcwt_read_cluster a)) = q_finalized a \<and>
           logged (snd (rcwt_read_cluster a)) = logged a @ [?m]"
      if "io_buf (pb a) = t" and "io_pos (pb a) = 11 + length (wire_clusters cs)"
        and "mem_ok a (nb_allocs a)" for a
      using rcwt_read_cluster_short_fail [of a] that t(2) False
      by (simp add: av_log_def)
    have "fst (rcwt_demux (after_setup ?avf)) = Inl AVERROR_INVALIDDATA \<and>
         q (snd (rcwt_demux (after_setup ?avf))) = q (after_setup ?avf) @ cluster_packets 11 cs \<and>
         q_finalized (snd (rcwt_demux (after_setup ?avf))) = q_finalized (after_setup ?avf) \<and>
         logged (snd (rcwt_demux (after_setup ?avf))) = logged (after_setup ?avf) @ [?m]"
      using cl mm su step by (rule rcwt_demux_stream_fail)
    then show ?thesis
      using rh False byte_at_8 [OF t(2)] by (simp add: after_setup_open [OF len])
  qed
qed

theorem rcwt_read_header_partial_prefix_witness:
  "fst (rcwt_read_header (open_input (\<lambda>k. True)
     ([0xCC, 0xCC, 0xED, 0xCC, 0, 0, 0, 1, 0, 0, 0] @
      wire_clusters [\<lparr>c_pts = 1500, c_block_count = 2, c_payload = [1, 2, 3, 4, 5, 6]\<rparr>] @
      [1, 2, 3]))) = Inr () \<and>
   q (snd (rcwt_read_header (open_input (\<lambda>k. True)
     ([0xCC, 0xCC, 0xED, 0xCC, 0, 0, 0, 1, 0, 0, 0] @
      wire_clusters [\<lparr>c_pts = 1500, c_block_count = 2, c_payload = [1, 2, 3, 4, 5, 6]\<rparr>] @
      [1, 2, 3])))) =
     [\<lparr>pkt_data = [1, 2, 3, 4, 5, 6], pkt_pts = 1500, pkt_pos = 27\<rparr>]"
proof -
  let ?h = "[0xCC, 0xCC, 0xED, 0xCC, 0, 0, 0, 1, 0, 0, 0] :: uint8_t list"
  let ?cs = "[\<lparr>c_pts = 1500, c_block_count = 2, c_payload = [1, 2, 3, 4, 5, 6]\<rparr>]"
  let ?t = "[1, 2, 3] :: uint8_t list"
  have h1: "length ?h = 11" by simp
  have h2: "fst (rcwt_validate_header (open_input (\<lambda>k. True)
      (?h @ wire_clusters ?cs @ ?t))) = Inr ()"
    by code_simp
  have h3: "\<forall>c \<in> set ?cs. cluster_wf c" by (simp add: cluster_wf_def)
  have h4: "\<forall>k::nat. (\<lambda>k. True) k" by simp
  have h5: "?t \<noteq> []" by simp
  have h6: "length ?t < 10" by simp
  show ?thesis using rcwt_read_header_partial_prefix [OF h1 h2 h3 h4 h5 h6] by simp
qed

text \<open>C10 as stated fails: a valid header followed by 9 bytes, the ninth nonzero, is a
  stream that ends inside a cluster prefix, and the read fails.\<close>

theorem rcwt_read_header_nine_byte_prefix:
  "fst (rcwt_read_header (open_input (\<lambda>k. True)
     [0xCC, 0xCC, 0xED, 0xCC, 0, 0, 0, 1, 0, 0, 0,
      0, 0, 0, 0, 0, 0, 0, 0, 1])) = Inl AVERROR_INVALIDDATA"
  by code_simp

section \<open>The payload size\<close>

text \<open>One run of the loop body, by cases on what the reads deliver.\<close>

lemma rcwt_read_cluster_cases:
  assumes r1: "avio_rl64 (pb avf) = (v1, s1)"
    and r2: "avio_rl16 s1 = (n, s2)"
    and r3: "avio_read s2 (nat (3 * uint n)) = (nb, got, s3)"
  shows "rcwt_read_cluster avf =
    (if n = 0 then (Inr (), avf\<lparr>pb := s2\<rparr>)
     else if \<not> mem_ok avf (nb_allocs avf)
     then (Inl AVERROR_ENOMEM, avf\<lparr>pb := s2, nb_allocs := nb_allocs avf + 1\<rparr>)
     else if nb \<noteq> 3 * uint n
     then (Inl AVERROR_INVALIDDATA,
           avf\<lparr>pb := s3, nb_allocs := nb_allocs avf + 1,
               logged := logged avf @ [(msg_cluster_size, [3 * uint n, nb, int (io_pos s3)])]\<rparr>)
     else if \<not> mem_ok avf (nb_allocs avf + 1)
     then (Inl AVERROR_ENOMEM, avf\<lparr>pb := s3, nb_allocs := nb_allocs avf + 2\<rparr>)
     else (Inr (),
           avf\<lparr>pb := s3, nb_allocs := nb_allocs avf + 2,
               q := q avf @ [\<lparr>pkt_data = take (nat (3 * uint n)) got, pkt_pts = v1,
                               pkt_pos = int (io_pos s3)\<rparr>]\<rparr>))"
proof -
  have "uint n < 65536" using avio_rl16_bound [of s1] by (simp add: r2)
  then have "sint (n * 3) = 3 * uint n" by (rule mul3_sint)
  then have sz: "sint (n * RCWT_BLOCK_SIZE) = 3 * uint n" by (simp add: RCWT_BLOCK_SIZE_def)
  show ?thesis
    by (simp add: rcwt_read_cluster_def r1 r2 Let_def sz av_calloc_def mem_request_def r3
        av_log_def avio_tell_def ff_subtitles_queue_insert_def)
qed

text \<open>C8. Whatever the input, the block count \<open>n\<close> that one run of the loop body reads
  is at most 65535, and the payload size \<^verbatim>\<open>cluster_nb_blocks * RCWT_BLOCK_SIZE\<close> that
  \<^verbatim>\<open>rcwt_read_header\<close> computes from it in a 32-bit \<^verbatim>\<open>int\<close> is exactly \<open>3 * n\<close>, at
  most 196605: the multiplication does not wrap. The size the body works with is this
  value: when the run fails on the cluster's size, the expected size it logs is
  \<open>3 * n\<close>, and when it queues a packet, the packet has \<open>3 * n\<close> bytes.\<close>

theorem rcwt_read_cluster_size_exact:
  assumes n: "n = fst (avio_rl16 (snd (avio_rl64 (pb avf))))"
  shows "uint n \<le> RCWT_CLUSTER_MAX_BLOCKS \<and>
         sint (n * RCWT_BLOCK_SIZE) = 3 * uint n \<and>
         3 * uint n \<le> 196605 \<and>
         (fst (rcwt_read_cluster avf) = Inl AVERROR_INVALIDDATA \<longrightarrow>
            (\<exists>actual pos. logged (snd (rcwt_read_cluster avf)) =
               logged avf @ [(msg_cluster_size, [3 * uint n, actual, pos])])) \<and>
         (fst (rcwt_read_cluster avf) = Inr () \<and> n \<noteq> 0 \<longrightarrow>
            (\<exists>pkt. q (snd (rcwt_read_cluster avf)) = q avf @ [pkt] \<and>
               int (length (pkt_data pkt)) = 3 * uint n))"
proof (intro conjI impI)
  obtain v1 s1 where r1: "avio_rl64 (pb avf) = (v1, s1)" by (cases "avio_rl64 (pb avf)")
  obtain n' s2 where r2': "avio_rl16 s1 = (n', s2)" by (cases "avio_rl16 s1")
  have nn: "n' = n" using n r1 r2' by simp
  have r2: "avio_rl16 s1 = (n, s2)" using r2' nn by simp
  obtain nb got s3 where r3: "avio_read s2 (nat (3 * uint n)) = (nb, got, s3)"
    by (cases "avio_read s2 (nat (3 * uint n))")
  note rc = rcwt_read_cluster_cases [OF r1 r2 r3]
  have b: "uint n < 65536" using avio_rl16_bound [of s1] by (simp add: r2)
  show "uint n \<le> RCWT_CLUSTER_MAX_BLOCKS" using b by (simp add: RCWT_CLUSTER_MAX_BLOCKS_def)
  show "sint (n * RCWT_BLOCK_SIZE) = 3 * uint n"
    using mul3_sint [OF b] by (simp add: RCWT_BLOCK_SIZE_def)
  show "3 * uint n \<le> 196605" using b by simp
  {
    assume "fst (rcwt_read_cluster avf) = Inl AVERROR_INVALIDDATA"
    then have "logged (snd (rcwt_read_cluster avf)) =
        logged avf @ [(msg_cluster_size, [3 * uint n, nb, int (io_pos s3)])]"
      unfolding rc by (simp split: if_splits)
    then show "\<exists>actual pos. logged (snd (rcwt_read_cluster avf)) =
               logged avf @ [(msg_cluster_size, [3 * uint n, actual, pos])]"
      by blast
  }
  {
    assume a: "fst (rcwt_read_cluster avf) = Inr () \<and> n \<noteq> 0"
    then have nbq: "nb = 3 * uint n \<and> q (snd (rcwt_read_cluster avf)) =
        q avf @ [\<lparr>pkt_data = take (nat (3 * uint n)) got, pkt_pts = v1,
                               pkt_pos = int (io_pos s3)\<rparr>]"
      unfolding rc by (simp split: if_splits)
    have "uint n \<noteq> 0" using a by (simp add: uint_0_iff)
    then have pos: "0 < uint n" using uint_ge_0 [of n] by linarith
    have nbv: "nb = (if take (nat (3 * uint n)) (io_buf s2) = []
                     then (if eof_reached s3 then AVERROR_EOF else 0)
                     else int (length (take (nat (3 * uint n)) (io_buf s2))))"
      and gv: "got = take (nat (3 * uint n)) (io_buf s2)"
      using r3 by (auto simp add: avio_read_def Let_def)
    have "int (length got) = 3 * uint n"
      using nbq pos nbv gv by (auto simp add: AVERROR_EOF_def split: if_splits)
    then have "int (length (take (nat (3 * uint n)) got)) = 3 * uint n" by simp
    then show "\<exists>pkt. q (snd (rcwt_read_cluster avf)) = q avf @ [pkt] \<and>
               int (length (pkt_data pkt)) = 3 * uint n"
      using nbq by simp
  }
qed

theorem rcwt_read_cluster_size_exact_witness:
  "fst (rcwt_read_cluster (open_input (\<lambda>k. True) (le_bytes64 7 @ [0xFF, 0xFF, 1, 2]))) =
     Inl AVERROR_INVALIDDATA \<and>
   (\<exists>actual pos. logged (snd (rcwt_read_cluster
        (open_input (\<lambda>k. True) (le_bytes64 7 @ [0xFF, 0xFF, 1, 2])))) =
      [(msg_cluster_size, [196605, actual, pos])]) \<and>
   (\<exists>pkt. q (snd (rcwt_read_cluster
        (open_input (\<lambda>k. True) (le_bytes64 7 @ [2, 0, 1, 2, 3, 4, 5, 6])))) = [pkt] \<and>
      int (length (pkt_data pkt)) = 6)"
proof -
  let ?a = "open_input (\<lambda>k. True) (le_bytes64 7 @ [0xFF, 0xFF, 1, 2])"
  let ?b = "open_input (\<lambda>k. True) (le_bytes64 7 @ [2, 0, 1, 2, 3, 4, 5, 6])"
  have na: "fst (avio_rl16 (snd (avio_rl64 (pb ?a)))) = 65535" by code_simp
  have nb: "fst (avio_rl16 (snd (avio_rl64 (pb ?b)))) = 2" by code_simp
  have "io_buf (pb ?a) = le_bytes64 7 @ le_bytes16 0xFFFF @ [1, 2]"
    by (simp add: open_input_def le_bytes16_def)
  then have fa: "fst (rcwt_read_cluster ?a) = Inl AVERROR_INVALIDDATA"
    using rcwt_read_cluster_truncated [of ?a 7 "0xFFFF" "[1, 2]"]
    by (simp add: open_input_def)
  have fb: "fst (rcwt_read_cluster ?b) = Inr ()" by code_simp
  have ea: "logged ?a = [] \<and> q ?b = []" by (simp add: open_input_def)
  show ?thesis
    using rcwt_read_cluster_size_exact [of 65535 ?a, OF na [symmetric]]
      rcwt_read_cluster_size_exact [of 2 ?b, OF nb [symmetric]] fa fb ea
    by simp
qed

end
